theory Spec2Isabelle
  imports Complex_Main "HOL-Library.Log_Nat"
begin

section \<open>JavaScript numbers and errors\<close>

text \<open>
  A JavaScript \<open>Number\<close> is an IEEE-754 binary64 value: a finite value, given here
  by the rational it stands for, or one of the three non-finite values. Arithmetic
  computes the exact result and rounds it to the nearest binary64 value, ties to the even
  significand; a magnitude that rounds to 2^1024 or more becomes an infinity. Zero has
  one sign here (the code never tells \<open>-0\<close> from \<open>0\<close>).
\<close>

datatype jsnum = Fin rat | PosInf | NegInf | NaN

definition pow2 :: "int \<Rightarrow> rat" where
  "pow2 e = (if 0 \<le> e then 2 ^ nat e else 1 / 2 ^ nat (- e))"

text \<open>
  The binary exponent of a positive rational \<open>a\<close>: the \<open>k\<close> with
  \<open>2^k \<le> a < 2^(k+1)\<close>, read off the bit length of \<open>\<lfloor>a\<rfloor>\<close> or of
  \<open>\<lceil>1 / a\<rceil> - 1\<close>.
\<close>

definition exponentOf :: "rat \<Rightarrow> int" where
  "exponentOf a = (if 1 \<le> a then bitlen \<lfloor>a\<rfloor> - 1 else - bitlen (\<lceil>1 / a\<rceil> - 1))"

text \<open>Rounding a non-negative rational to the nearest integer, a tie going to the even one.\<close>

definition roundHalfEven :: "rat \<Rightarrow> int" where
  "roundHalfEven x =
     (let f = \<lfloor>x\<rfloor>; r = x - of_int f
      in if r < 1 / 2 then f else if 1 / 2 < r then f + 1 else if even f then f else f + 1)"

text \<open>
  Rounding to binary64: the significand has 53 bits, so the unit in the last place is
  \<open>2^(k - 52)\<close> for a value of binary exponent \<open>k\<close>, and never less than
  \<open>2^(-1074)\<close> (the subnormal range).
\<close>

definition round_double :: "rat \<Rightarrow> jsnum" where
  "round_double q =
     (if q = 0 then Fin 0
      else
        (let a = \<bar>q\<bar>;
             e = max (exponentOf a - 52) (- 1074);
             m = roundHalfEven (a / pow2 e)
         in if 1024 < bitlen m + e then (if 0 < q then PosInf else NegInf)
            else Fin (if 0 < q then of_int m * pow2 e else - (of_int m * pow2 e))))"

text \<open>\<open>a - b\<close> and \<open>a / b\<close> on two finite numbers.\<close>

definition js_minus :: "rat \<Rightarrow> rat \<Rightarrow> jsnum" where
  "js_minus a b = round_double (a - b)"

definition js_div :: "rat \<Rightarrow> rat \<Rightarrow> jsnum" where
  "js_div a b =
     (if b = 0 then (if 0 < a then PosInf else if a < 0 then NegInf else NaN)
      else round_double (a / b))"

text \<open>\<open>x / b\<close> where \<open>x\<close> is the result of an earlier operation.\<close>

fun js_over :: "jsnum \<Rightarrow> rat \<Rightarrow> jsnum" where
  "js_over (Fin a) b = js_div a b"
| "js_over PosInf b = (if b < 0 then NegInf else PosInf)"
| "js_over NegInf b = (if b < 0 then PosInf else NegInf)"
| "js_over NaN b = NaN"

text \<open>\<open>x * k\<close> for a finite constant \<open>k\<close> (the code multiplies by 100).\<close>

fun js_times :: "jsnum \<Rightarrow> rat \<Rightarrow> jsnum" where
  "js_times (Fin x) k = round_double (x * k)"
| "js_times PosInf k = (if 0 < k then PosInf else if k < 0 then NegInf else NaN)"
| "js_times NegInf k = (if 0 < k then NegInf else if k < 0 then PosInf else NaN)"
| "js_times NaN k = NaN"

text \<open>
  \<open>x >= k\<close> against a literal: false for \<open>NaN\<close>. The literals compared with are
  0.5, which is exact, and 0.2, whose binary64 value is the one nearest to 1/5, so that a
  binary64 value is at least the one exactly when it is at least the other.
\<close>

fun js_ge :: "jsnum \<Rightarrow> rat \<Rightarrow> bool" where
  "js_ge (Fin x) k = (k \<le> x)"
| "js_ge PosInf k = True"
| "js_ge NegInf k = False"
| "js_ge NaN k = False"

text \<open>A thrown value: an \<open>Error\<close> object with its \<open>name\<close> and \<open>message\<close>.\<close>

datatype js_error = JsError (errName: string) (errMessage: string)

text \<open>\<open>Map.set\<close>: a new key goes last, an existing key keeps its place.\<close>

fun mapSet :: "'k \<Rightarrow> 'v \<Rightarrow> ('k \<times> 'v) list \<Rightarrow> ('k \<times> 'v) list" where
  "mapSet k v [] = [(k, v)]"
| "mapSet k v ((k', v') # kvs) = (if k' = k then (k, v) # kvs else (k', v') # mapSet k v kvs)"

type_synonym objectId = string
type_synonym millis = int

section \<open>Revenue analytics: growth rates (class AnalyticsService, services/analytics.js)\<close>

record bucket =
  bucket_id :: "int list"
  revenue :: rat
  orderCount :: nat
  averageOrderValue :: rat

record analytics_bucket = bucket +
  growthRate :: jsnum

text \<open>The object spread \<open>{...current, growthRate}\<close>.\<close>

definition withGrowthRate :: "bucket \<Rightarrow> jsnum \<Rightarrow> analytics_bucket" where
  "withGrowthRate current g =
     \<lparr>bucket_id = bucket_id current, revenue = revenue current,
      orderCount = orderCount current, averageOrderValue = averageOrderValue current,
      growthRate = g\<rparr>"

text \<open>
  \<open>results.map((current, index) => ...)\<close>: \<open>results[index - 1]\<close> is
  \<open>undefined\<close> at index 0 and the previous bucket otherwise.
\<close>

definition previousBucket :: "bucket list \<Rightarrow> nat \<Rightarrow> bucket option" where
  "previousBucket results index = (if index = 0 then None else Some (results ! (index - 1)))"

definition growthRateAt :: "bucket list \<Rightarrow> nat \<Rightarrow> jsnum" where
  "growthRateAt results index =
     (case previousBucket results index of
        None \<Rightarrow> Fin 0
      | Some previous \<Rightarrow>
          js_times
            (js_over (js_minus (revenue (results ! index)) (revenue previous)) (revenue previous))
            100)"

definition calculateGrowthRates :: "bucket list \<Rightarrow> analytics_bucket list" where
  "calculateGrowthRates results =
     map (\<lambda>index. withGrowthRate (results ! index) (growthRateAt results index))
       [0..<length results]"

definition revenueBuckets :: "rat list \<Rightarrow> bucket list" where
  "revenueBuckets rs =
     map (\<lambda>r. \<lparr>bucket_id = [], revenue = r, orderCount = 1, averageOrderValue = r\<rparr>) rs"

section \<open>Data model (the Customer, Order and Cart schemas)\<close>

datatype customer_kind = Individual | Business

datatype loyalty_tier = Bronze | Silver | Gold | Platinum

fun tierName :: "loyalty_tier \<Rightarrow> string" where
  "tierName Bronze = ''bronze''"
| "tierName Silver = ''silver''"
| "tierName Gold = ''gold''"
| "tierName Platinum = ''platinum''"

text \<open>
  The fields of a customer document that the services read or write:
  \<open>_id\<close>, \<open>type\<close>, \<open>contactPreferences.whatsapp\<close>, \<open>loyalty.tier\<close>
  (\<open>None\<close> when unset), \<open>metrics.totalSpent\<close>, \<open>metrics.lastPurchaseDate\<close>
  and \<open>segments\<close>.
\<close>

record customer =
  customer_id :: objectId
  kind :: customer_kind
  whatsappPreference :: bool
  loyaltyTier :: "loyalty_tier option"
  totalSpent :: rat
  lastPurchaseDate :: "millis option"
  segments :: "string list"

record order =
  order_id :: objectId
  order_customer :: "objectId option"
  order_total :: rat
  order_items :: nat
  order_createdAt :: millis

datatype cart_status = Active | Abandoned | Converted | Expired

datatype channel = Email | Whatsapp | Sms

datatype response = NoResponse | Opened | Clicked | ConvertedResponse

record cart_item =
  item_product :: objectId
  item_quantity :: rat
  item_price :: rat

record recovery_attempt =
  attempt_id :: objectId
  attempt_type :: channel
  attempt_templateId :: objectId
  attempt_sentAt :: millis
  attempt_response :: response

record cart =
  cart_id :: objectId
  cart_customer :: objectId
  items :: "cart_item list"
  status :: cart_status
  totalValue :: rat
  lastActivity :: millis
  abandonedAt :: "millis option"
  recoveryAttempts :: "recovery_attempt list"

section \<open>Cart operations (models/Cart.js)\<close>

text \<open>The \<open>pre('save')\<close> hook: the total is recomputed from the items on every save.\<close>

definition preSave :: "cart \<Rightarrow> cart" where
  "preSave c =
     c\<lparr>totalValue := foldl (\<lambda>total item. total + item_price item * item_quantity item) 0 (items c)\<rparr>"

text \<open>
  Each method returns the document as it is after the call; \<open>t\<close> is the reading of
  \<open>new Date()\<close>. A branch that saves runs the hook.
\<close>

definition abandon :: "millis \<Rightarrow> cart \<Rightarrow> cart" where
  "abandon t c =
     (if status c = Active then preSave (c\<lparr>status := Abandoned, abandonedAt := Some t\<rparr>) else c)"

definition recover :: "millis \<Rightarrow> cart \<Rightarrow> cart" where
  "recover t c =
     (if status c = Abandoned
      then preSave (c\<lparr>status := Active, abandonedAt := None, lastActivity := t\<rparr>)
      else c)"

definition convert :: "cart \<Rightarrow> cart" where
  "convert c = preSave (c\<lparr>status := Converted\<rparr>)"

definition expire :: "cart \<Rightarrow> cart" where
  "expire c = preSave (c\<lparr>status := Expired\<rparr>)"

text \<open>\<open>recoveryAttempts.id(attemptId)\<close>: the first sub-document with that id.\<close>

definition findAttempt :: "recovery_attempt list \<Rightarrow> objectId \<Rightarrow> recovery_attempt option" where
  "findAttempt as aid = find (\<lambda>a. attempt_id a = aid) as"

fun setResponse :: "recovery_attempt list \<Rightarrow> objectId \<Rightarrow> response \<Rightarrow> recovery_attempt list" where
  "setResponse [] aid r = []"
| "setResponse (a # as) aid r =
     (if attempt_id a = aid then a\<lparr>attempt_response := r\<rparr> # as
      else a # setResponse as aid r)"

definition updateRecoveryResponse :: "objectId \<Rightarrow> response \<Rightarrow> cart \<Rightarrow> cart" where
  "updateRecoveryResponse attemptId r c =
     (case findAttempt (recoveryAttempts c) attemptId of
        None \<Rightarrow> c
      | Some attempt \<Rightarrow>
          (let c1 = c\<lparr>recoveryAttempts := setResponse (recoveryAttempts c) attemptId r\<rparr>;
               c2 = (if r = ConvertedResponse then c1\<lparr>status := Converted\<rparr> else c1)
           in preSave c2))"

text \<open>
  The state machine as the specification words it: active to abandoned, abandoned to
  active, converted or expired, and anything to expired.
\<close>

fun specTransition :: "cart_status \<Rightarrow> cart_status \<Rightarrow> bool" where
  "specTransition Active Abandoned = True"
| "specTransition Abandoned Active = True"
| "specTransition Abandoned Converted = True"
| "specTransition _ Expired = True"
| "specTransition _ _ = False"

text \<open>The transitions the methods perform: conversion is reachable from every status.\<close>

fun codeTransition :: "cart_status \<Rightarrow> cart_status \<Rightarrow> bool" where
  "codeTransition Active Abandoned = True"
| "codeTransition Abandoned Active = True"
| "codeTransition _ Converted = True"
| "codeTransition _ Expired = True"
| "codeTransition _ _ = False"

definition activeCartExample :: cart where
  "activeCartExample =
     \<lparr>cart_id = ''c1'', cart_customer = ''u1'',
      items = [\<lparr>item_product = ''p1'', item_quantity = 2, item_price = 600\<rparr>],
      status = Active, totalValue = 1200, lastActivity = 0, abandonedAt = None,
      recoveryAttempts = []\<rparr>"

section \<open>The environment: document store, cache, clock, random source\<close>

record event_data =
  ev_orderId :: objectId
  ev_amount :: rat
  ev_customerId :: objectId
  ev_items :: nat
  ev_timestamp :: millis

record strategy =
  timing :: "string option"
  messageStyle :: "string option"
  discountOffer :: "string option"
  channels :: "channel list"

record attempt =
  scheduledFor :: millis
  attempt_channels :: "channel list"
  attempt_templates :: "(channel \<times> objectId) list"

record recovery_plan =
  plan_cartId :: objectId
  plan_customerId :: objectId
  plan_strategy :: strategy
  attempts :: "attempt list"

text \<open>
  One record holds everything outside the services. \<open>now\<close> is the reading of
  \<open>Date.now()\<close> during one operation; \<open>randomDraws\<close> are the successive results
  of \<open>Math.random()\<close>, of which \<open>drawsTaken\<close> are used up. The collections are
  \<open>customerStore\<close>, \<open>orderStore\<close>, \<open>cartStore\<close> (documents in natural order),
  the number of \<open>Message\<close> documents per customer and the template that
  \<open>MessageTemplate.findOne\<close> returns for a channel, style and discount offer.
  Each family of cache keys is one map:
  \<open>customer:<id>:segments\<close> and \<open>customer:<id>:messageCount\<close> (value and expiry time),
  \<open>abtest:<test>:<customer>\<close>, \<open>abtest:<test>:<variant>:conversions\<close>,
  \<open>abtest:<test>:<variant>:impressions\<close>, \<open>cart:<id>:recovery_plan\<close>,
  the \<open>stats:abandonments\<close> counters, the sorted set \<open>sales:realtime\<close> as a list of
  (score, member) pairs with distinct members, and the hashes \<open>sales:daily:<date>\<close> and
  \<open>sales:segments:<date>\<close>, the date being the day number of the clock reading.
  \<open>timers\<close> are the pending \<open>setTimeout\<close> calls (delay, cart id, attempt).
  Store and cache calls are taken to succeed; a failing call is not modelled.
\<close>

record world =
  now :: millis
  randomDraws :: "nat \<Rightarrow> rat"
  drawsTaken :: nat
  customerStore :: "objectId \<rightharpoonup> customer"
  orderStore :: "order list"
  messageDocuments :: "objectId \<Rightarrow> nat"
  cartStore :: "cart list"
  findTemplate :: "channel \<Rightarrow> string option \<Rightarrow> string option \<Rightarrow> objectId option"
  segmentsCache :: "objectId \<rightharpoonup> (string list \<times> millis)"
  messageCountCache :: "objectId \<rightharpoonup> (nat \<times> millis)"
  abAssignments :: "(string \<times> objectId) \<rightharpoonup> string"
  abConversions :: "(string \<times> string) \<rightharpoonup> int"
  abImpressions :: "(string \<times> string) \<rightharpoonup> int"
  recoveryPlans :: "objectId \<rightharpoonup> (recovery_plan \<times> millis)"
  abandonmentsTotal :: int
  abandonmentsValue :: int
  abandonmentsDaily :: "int \<Rightarrow> int"
  realtimeSales :: "(millis \<times> event_data) list"
  salesDaily :: "(int \<times> string) \<Rightarrow> int"
  salesSegments :: "(int \<times> string) \<Rightarrow> int"
  timers :: "(millis \<times> objectId \<times> attempt) list"

text \<open>\<open>redis.get\<close> on a key written by \<open>setex\<close>: nothing once the key has expired.\<close>

definition getWithExpiry :: "('k \<rightharpoonup> ('v \<times> millis)) \<Rightarrow> millis \<Rightarrow> 'k \<Rightarrow> 'v option" where
  "getWithExpiry m t k =
     (case m k of None \<Rightarrow> None | Some (v, expiresAt) \<Rightarrow> if t < expiresAt then Some v else None)"

definition dayMillis :: int where
  "dayMillis = 1000 * 60 * 60 * 24"

definition dateKey :: "millis \<Rightarrow> int" where
  "dateKey t = t div dayMillis"

section \<open>Segmentation engine (class SegmentationEngine, services/backup.js)\<close>

definition CACHE_TTL :: int where
  "CACHE_TTL = 3600"

text \<open>
  A rule is an async function of the customer: it reads and may write the environment,
  and either returns labels or throws.
\<close>

type_synonym rule = "customer \<Rightarrow> world \<Rightarrow> (js_error + string list) \<times> world"

definition purchase_frequency :: rule where
  "purchase_frequency c w =
     (case filter (\<lambda>doc. order_customer doc = Some (customer_id c)) (orderStore w) of
        [] \<Rightarrow> (Inr [''new_customer''], w)
      | firstOrder # rest \<Rightarrow>
          (let daysSinceFirstPurchase = (now w - order_createdAt firstOrder) div dayMillis;
               purchaseFrequency =
                 js_div (of_nat (length (firstOrder # rest))) (of_int daysSinceFirstPurchase)
           in if js_ge purchaseFrequency (1 / 2) then (Inr [''frequent_buyer''], w)
              else if js_ge purchaseFrequency (1 / 5) then (Inr [''regular_customer''], w)
              else (Inr [''occasional_buyer''], w)))"

definition spending_level :: rule where
  "spending_level c w =
     (if 10000 \<le> totalSpent c then (Inr [''high_value''], w)
      else if 5000 \<le> totalSpent c then (Inr [''medium_value''], w)
      else (Inr [''low_value''], w))"

text \<open>
  The cached count is a decimal string, never empty, so a cached value is always used.
\<close>

definition getCustomerMessageCount :: "objectId \<Rightarrow> world \<Rightarrow> nat \<times> world" where
  "getCustomerMessageCount customerId w =
     (case getWithExpiry (messageCountCache w) (now w) customerId of
        Some cachedCount \<Rightarrow> (cachedCount, w)
      | None \<Rightarrow>
          (let count = messageDocuments w customerId
           in (count,
               w\<lparr>messageCountCache :=
                    (messageCountCache w)(customerId \<mapsto> (count, now w + CACHE_TTL * 1000))\<rparr>)))"

definition engagement_level :: rule where
  "engagement_level c w =
     (let (messageCount, w1) = getCustomerMessageCount (customer_id c) w;
          tags = (if 50 < messageCount then [''highly_engaged'']
                  else if 20 < messageCount then [''engaged'']
                  else [''low_engagement'']);
          tags2 = (if whatsappPreference c then tags @ [''whatsapp_enabled''] else tags)
      in (Inr tags2, w1))"

definition purchase_recency :: rule where
  "purchase_recency c w =
     (case lastPurchaseDate c of
        None \<Rightarrow> (Inr [''never_purchased''], w)
      | Some d \<Rightarrow>
          (let daysSinceLastPurchase = (now w - d) div dayMillis
           in if daysSinceLastPurchase \<le> 30 then (Inr [''active''], w)
              else if daysSinceLastPurchase \<le> 90 then (Inr [''at_risk''], w)
              else (Inr [''inactive''], w)))"

text \<open>
  The registry is a \<open>Map\<close> from rule name to function, iterated in insertion order;
  \<open>addRule\<close> is \<open>Map.set\<close>.
\<close>

type_synonym registry = "(string \<times> rule) list"

definition addRule :: "string \<Rightarrow> rule \<Rightarrow> registry \<Rightarrow> registry" where
  "addRule name ruleFn rs = mapSet name ruleFn rs"

definition defaultRules :: registry where
  "defaultRules =
     addRule ''purchase_recency'' purchase_recency
       (addRule ''engagement_level'' engagement_level
         (addRule ''spending_level'' spending_level
           (addRule ''purchase_frequency'' purchase_frequency [])))"

text \<open>\<open>Set.add\<close>: a set keeps its members in insertion order.\<close>

definition setAdd :: "string list \<Rightarrow> string \<Rightarrow> string list" where
  "setAdd segs s = (if s \<in> set segs then segs else segs @ [s])"

text \<open>
  The loop over the registry. A rule that throws ends the loop: the error and the
  environment as that rule left it are returned.
\<close>

fun applyRules :: "registry \<Rightarrow> customer \<Rightarrow> string list \<Rightarrow> world \<Rightarrow> (js_error + string list) \<times> world" where
  "applyRules [] c segs w = (Inr segs, w)"
| "applyRules ((ruleName, ruleFn) # rs) c segs w =
     (case ruleFn c w of
        (Inl e, w1) \<Rightarrow> (Inl e, w1)
      | (Inr ruleSegments, w1) \<Rightarrow> applyRules rs c (foldl setAdd segs ruleSegments) w1)"

text \<open>
  \<open>segmentCustomer\<close>: the cached array (a JSON text, never empty) is returned when
  present; the \<open>catch\<close> block logs and rethrows the error it caught.
\<close>

definition segmentCustomer :: "registry \<Rightarrow> customer \<Rightarrow> world \<Rightarrow> (js_error + string list) \<times> world" where
  "segmentCustomer rules c w =
     (case getWithExpiry (segmentsCache w) (now w) (customer_id c) of
        Some cachedSegments \<Rightarrow> (Inr cachedSegments, w)
      | None \<Rightarrow>
          (case applyRules rules c [] w of
             (Inl e, w1) \<Rightarrow> (Inl e, w1)
           | (Inr segs, w1) \<Rightarrow>
               (let segs2 = (if kind c = Business then setAdd segs ''business_account'' else segs);
                    segmentArray =
                      (case loyaltyTier c of
                         None \<Rightarrow> segs2
                       | Some tier \<Rightarrow> setAdd segs2 (''loyalty_'' @ tierName tier))
                in (Inr segmentArray,
                    w1\<lparr>segmentsCache :=
                          (segmentsCache w1)(customer_id c \<mapsto>
                             (segmentArray, now w1 + CACHE_TTL * 1000))\<rparr>))))"

definition updateCustomerSegments :: "registry \<Rightarrow> objectId \<Rightarrow> world \<Rightarrow> (js_error + string list) \<times> world" where
  "updateCustomerSegments rules customerId w =
     (case customerStore w customerId of
        None \<Rightarrow> (Inl (JsError ''Error'' ''Customer not found''), w)
      | Some c \<Rightarrow>
          (case segmentCustomer rules c w of
             (Inl e, w1) \<Rightarrow> (Inl e, w1)
           | (Inr segs, w1) \<Rightarrow>
               (let w2 = w1\<lparr>customerStore := (customerStore w1)(customerId \<mapsto> c\<lparr>segments := segs\<rparr>)\<rparr>;
                    w3 = w2\<lparr>segmentsCache := (segmentsCache w2)(customerId := None)\<rparr>
                in (Inr segs, w3))))"

text \<open>
  The labels of the rules as the specification words them: every registered rule is
  evaluated in registration order and its labels are collected, each rule seeing the
  environment the earlier ones left.
\<close>

fun ruleOutputs :: "registry \<Rightarrow> customer \<Rightarrow> world \<Rightarrow> (js_error + string list list) \<times> world" where
  "ruleOutputs [] c w = (Inr [], w)"
| "ruleOutputs ((ruleName, ruleFn) # rs) c w =
     (case ruleFn c w of
        (Inl e, w1) \<Rightarrow> (Inl e, w1)
      | (Inr labels, w1) \<Rightarrow>
          (case ruleOutputs rs c w1 of
             (Inl e, w2) \<Rightarrow> (Inl e, w2)
           | (Inr ls, w2) \<Rightarrow> (Inr (labels # ls), w2)))"

definition derivedLabels :: "customer \<Rightarrow> string list" where
  "derivedLabels c =
     (if kind c = Business then [''business_account''] else [])
     @ (case loyaltyTier c of None \<Rightarrow> [] | Some tier \<Rightarrow> [''loyalty_'' @ tierName tier])"

text \<open>A rule that leaves the cached classifications and the customer documents alone.\<close>

definition keepsSegments :: "rule \<Rightarrow> bool" where
  "keepsSegments r \<longleftrightarrow>
     (\<forall>c w. segmentsCache (snd (r c w)) = segmentsCache w
            \<and> customerStore (snd (r c w)) = customerStore w)"

section \<open>Real-time sales window (class AnalyticsService, services/analytics.js)\<close>





definition hincrby :: "('k \<Rightarrow> int) \<Rightarrow> 'k \<Rightarrow> int \<Rightarrow> ('k \<Rightarrow> int)" where
  "hincrby h k d = h(k := h k + d)"






section \<open>Cart recovery (class CartRecoveryService, services/analytics.js)\<close>

definition ABANDONMENT_THRESHOLD :: int where
  "ABANDONMENT_THRESHOLD = 30 * 60 * 1000"

record interval =
  hours :: int
  interval_channels :: "channel list"

definition RECOVERY_INTERVALS :: "interval list" where
  "RECOVERY_INTERVALS =
     [\<lparr>hours = 1, interval_channels = [Whatsapp]\<rparr>,
      \<lparr>hours = 24, interval_channels = [Email, Whatsapp]\<rparr>,
      \<lparr>hours = 72, interval_channels = [Email]\<rparr>]"

record ab_test =
  variants :: "string list"
  distribution :: "rat list"
  active :: bool

definition abTests :: "(string \<times> ab_test) list" where
  "abTests =
     mapSet ''timing''
       \<lparr>variants = [''immediate'', ''delayed''], distribution = [1 / 2, 1 / 2], active = True\<rparr>
     (mapSet ''discount_offer''
       \<lparr>variants = [''none'', ''10_percent'', ''20_percent''],
        distribution = [33 / 100, 33 / 100, 34 / 100], active = True\<rparr>
     (mapSet ''message_style''
       \<lparr>variants = [''persuasive'', ''informative'', ''urgent''],
        distribution = [33 / 100, 33 / 100, 34 / 100], active = True\<rparr> []))"

text \<open>
  \<open>selectVariant\<close>: the loop returns the first variant whose cumulative probability
  reaches the draw. A missing distribution entry adds \<open>undefined\<close>, after which no
  comparison succeeds. Past the loop the last variant is returned (\<open>None\<close> for the
  \<open>undefined\<close> of an empty variant list).
\<close>

fun selectLoop :: "string list \<Rightarrow> rat list \<Rightarrow> rat \<Rightarrow> rat \<Rightarrow> string option" where
  "selectLoop [] ds random cumulativeProbability = None"
| "selectLoop (v # vs) [] random cumulativeProbability = None"
| "selectLoop (v # vs) (d # ds) random cumulativeProbability =
     (if random \<le> cumulativeProbability + d then Some v
      else selectLoop vs ds random (cumulativeProbability + d))"

definition selectVariant :: "string list \<Rightarrow> rat list \<Rightarrow> rat \<Rightarrow> string option" where
  "selectVariant vs ds random =
     (case selectLoop vs ds random 0 of
        Some v \<Rightarrow> Some v
      | None \<Rightarrow> (if vs = [] then None else Some (last vs)))"

definition mathRandom :: "world \<Rightarrow> rat \<times> world" where
  "mathRandom w = (randomDraws w (drawsTaken w), w\<lparr>drawsTaken := Suc (drawsTaken w)\<rparr>)"

text \<open>
  \<open>assignABTestVariant\<close>: \<open>null\<close> for an unknown or inactive test; a cached, non-empty
  variant is returned as it is; otherwise a variant is drawn and stored without expiry.
  Nothing else is written.
\<close>

definition assignABTestVariant :: "string \<Rightarrow> objectId \<Rightarrow> world \<Rightarrow> string option \<times> world" where
  "assignABTestVariant testName customerId w =
     (case map_of abTests testName of
        None \<Rightarrow> (None, w)
      | Some test \<Rightarrow>
          if \<not> active test then (None, w)
          else
            (let variant = abAssignments w (testName, customerId)
             in if variant = None \<or> variant = Some []
                then
                  (let (random, w1) = mathRandom w
                   in case selectVariant (variants test) (distribution test) random of
                        None \<Rightarrow> (None, w1)
                      | Some v \<Rightarrow>
                          (Some v,
                           w1\<lparr>abAssignments := (abAssignments w1)((testName, customerId) \<mapsto> v)\<rparr>))
                else (variant, w)))"

text \<open>
  \<open>determineRecoveryStrategy\<close>; \<open>c\<close> is the populated \<open>cart.customer\<close>.
\<close>

definition baseChannels :: "cart \<Rightarrow> string list \<Rightarrow> channel list" where
  "baseChannels crt segs =
     (if ''high_value'' \<in> set segs then [Whatsapp, Email]
      else if 1000 < totalValue crt then [Whatsapp, Email]
      else [Email])"

definition determineRecoveryStrategy :: "cart \<Rightarrow> customer \<Rightarrow> string list \<Rightarrow> world \<Rightarrow> strategy \<times> world" where
  "determineRecoveryStrategy crt c segs w =
     (let (t, w1) = assignABTestVariant ''timing'' (customer_id c) w;
          (m, w2) = assignABTestVariant ''message_style'' (customer_id c) w1;
          (d, w3) = assignABTestVariant ''discount_offer'' (customer_id c) w2;
          chs = baseChannels crt segs;
          chs2 = (if whatsappPreference c = False then filter (\<lambda>ch. ch \<noteq> Whatsapp) chs else chs)
      in (\<lparr>timing = t, messageStyle = m, discountOffer = d, channels = chs2\<rparr>, w3))"

definition selectTemplates :: "strategy \<Rightarrow> channel list \<Rightarrow> world \<Rightarrow> (channel \<times> objectId) list" where
  "selectTemplates s chs w =
     foldl (\<lambda>templates ch.
              case findTemplate w ch (messageStyle s) (discountOffer s) of
                None \<Rightarrow> templates
              | Some templateId \<Rightarrow> mapSet ch templateId templates) [] chs"

definition createRecoveryPlan :: "cart \<Rightarrow> customer \<Rightarrow> strategy \<Rightarrow> world \<Rightarrow> recovery_plan" where
  "createRecoveryPlan crt c s w =
     \<lparr>plan_cartId = cart_id crt, plan_customerId = customer_id c, plan_strategy = s,
      attempts =
        foldl (\<lambda>planAttempts i.
                 (let chs = filter (\<lambda>ch. ch \<in> set (channels s)) (interval_channels i)
                  in if 0 < length chs
                     then planAttempts @
                            [\<lparr>scheduledFor = now w + hours i * 60 * 60 * 1000,
                              attempt_channels = chs,
                              attempt_templates = selectTemplates s chs w\<rparr>]
                     else planAttempts)) [] RECOVERY_INTERVALS\<rparr>"

text \<open>
  \<open>initializeRecoveryWorkflow\<close>: the plan is stored for seven days and the first
  attempt is given to \<open>setTimeout\<close>. With no attempt, \<open>attempts[0]\<close> is
  \<open>undefined\<close> and reading its \<open>scheduledFor\<close> throws, which the \<open>catch\<close> block logs.
\<close>

definition initializeRecoveryWorkflow :: "cart \<Rightarrow> customer \<Rightarrow> strategy \<Rightarrow> world \<Rightarrow> world" where
  "initializeRecoveryWorkflow crt c s w =
     (let recoveryPlan = createRecoveryPlan crt c s w;
          w1 = w\<lparr>recoveryPlans :=
                    (recoveryPlans w)(cart_id crt \<mapsto> (recoveryPlan, now w + 7 * 24 * 60 * 60 * 1000))\<rparr>
      in case attempts recoveryPlan of
           [] \<Rightarrow> w1
         | a # rest \<Rightarrow> w1\<lparr>timers := timers w1 @ [(max 0 (scheduledFor a - now w1), cart_id crt, a)]\<rparr>)"

definition logAbandonment :: "cart \<Rightarrow> world \<Rightarrow> world" where
  "logAbandonment crt w =
     w\<lparr>abandonmentsTotal := abandonmentsTotal w + 1,
       abandonmentsValue := abandonmentsValue w + \<lfloor>totalValue crt\<rfloor>,
       abandonmentsDaily := hincrby (abandonmentsDaily w) (dateKey (now w)) 1\<rparr>"

text \<open>\<open>save\<close> of a cart document: the stored document of that id is replaced.\<close>

definition saveCart :: "cart \<Rightarrow> world \<Rightarrow> world" where
  "saveCart crt w =
     w\<lparr>cartStore := map (\<lambda>d. if cart_id d = cart_id crt then crt else d) (cartStore w)\<rparr>"

text \<open>
  \<open>processAbandonedCart\<close> on a cart found by the sweep with its populated customer
  (\<open>None\<close> when the reference is dangling, which makes \<open>customer._id\<close> throw). Every
  error is caught and logged inside the function.
\<close>

definition processAbandonedCart :: "cart \<times> customer option \<Rightarrow> world \<Rightarrow> world" where
  "processAbandonedCart p w =
     (let crt = fst p;
          crt1 = abandon (now w) crt;
          w1 = (if status crt = Active then saveCart crt1 w else w)
      in case snd p of
           None \<Rightarrow> w1
         | Some c \<Rightarrow>
             (case segmentCustomer defaultRules c w1 of
                (Inl e, w2) \<Rightarrow> w2
              | (Inr segs, w2) \<Rightarrow>
                  (let (s, w3) = determineRecoveryStrategy crt1 c segs w2;
                       w4 = initializeRecoveryWorkflow crt1 c s w3
                   in logAbandonment crt1 w4)))"

definition potentiallyAbandonedCarts :: "world \<Rightarrow> (cart \<times> customer option) list" where
  "potentiallyAbandonedCarts w =
     (let threshold = now w - ABANDONMENT_THRESHOLD
      in map (\<lambda>crt. (crt, customerStore w (cart_customer crt)))
           (filter (\<lambda>crt. status crt = Active \<and> lastActivity crt < threshold \<and> items crt \<noteq> [])
              (cartStore w)))"

definition detectAbandonedCarts :: "world \<Rightarrow> world" where
  "detectAbandonedCarts w = foldl (\<lambda>v p. processAbandonedCart p v) w (potentiallyAbandonedCarts w)"

text \<open>
  \<open>updateABTestResults\<close> for the customer of a converted cart: per test, the
  conversions counter of the customer's variant is incremented and a rate is recorded
  only when the impressions key holds a value.
\<close>

definition incr :: "('k \<rightharpoonup> int) \<Rightarrow> 'k \<Rightarrow> ('k \<rightharpoonup> int)" where
  "incr m k = m(k \<mapsto> (case m k of None \<Rightarrow> 1 | Some n \<Rightarrow> n + 1))"

definition updateOneTest ::
  "objectId \<Rightarrow> (string \<times> string \<times> jsnum) list \<times> world \<Rightarrow> string \<times> ab_test
     \<Rightarrow> (string \<times> string \<times> jsnum) list \<times> world" where
  "updateOneTest customerId acc nt =
     (let testResults = fst acc; w = snd acc; testName = fst nt;
          (variant, w1) = assignABTestVariant testName customerId w
      in case variant of
           None \<Rightarrow> (testResults, w1)
         | Some v \<Rightarrow>
             (let w2 = w1\<lparr>abConversions := incr (abConversions w1) (testName, v)\<rparr>
              in case abImpressions w2 (testName, v) of
                   None \<Rightarrow> (testResults, w2)
                 | Some impressions \<Rightarrow>
                     (case abConversions w2 (testName, v) of
                        None \<Rightarrow> (testResults, w2)
                      | Some conversions \<Rightarrow>
                          (mapSet testName
                             (v, js_times (js_div (of_int conversions) (of_int impressions)) 100)
                             testResults, w2))))"

definition updateABTestResults :: "objectId \<Rightarrow> world \<Rightarrow> (string \<times> string \<times> jsnum) list \<times> world" where
  "updateABTestResults customerId w = foldl (updateOneTest customerId) ([], w) abTests"

definition trackRecoveryAttemptResponse :: "objectId \<Rightarrow> objectId \<Rightarrow> response \<Rightarrow> world \<Rightarrow> world" where
  "trackRecoveryAttemptResponse cartId attemptId r w =
     (case find (\<lambda>d. cart_id d = cartId) (cartStore w) of
        None \<Rightarrow> w
      | Some crt \<Rightarrow>
          (let crt1 = updateRecoveryResponse attemptId r crt;
               w1 = (if findAttempt (recoveryAttempts crt) attemptId \<noteq> None then saveCart crt1 w else w)
           in if r = ConvertedResponse then snd (updateABTestResults (cart_customer crt) w1) else w1))"

text \<open>
  The allowed channels as the specification words them: WhatsApp and email for a
  high-value customer or a cart worth more than 1000, email otherwise, without WhatsApp
  when the customer has opted out of it.
\<close>

definition allowedChannels :: "cart \<Rightarrow> customer \<Rightarrow> string list \<Rightarrow> channel list" where
  "allowedChannels crt c segs =
     filter (\<lambda>ch. ch = Whatsapp \<longrightarrow> whatsappPreference c)
       (if ''high_value'' \<in> set segs \<or> 1000 < totalValue crt then [Whatsapp, Email] else [Email])"

definition intersection :: "interval \<Rightarrow> channel list \<Rightarrow> channel list" where
  "intersection i allowed = filter (\<lambda>ch. ch \<in> set allowed) (interval_channels i)"


section \<open>Example data\<close>

definition exampleCustomer :: customer where
  "exampleCustomer =
     \<lparr>customer_id = ''u1'', kind = Business, whatsappPreference = True,
      loyaltyTier = Some Gold, totalSpent = 20000, lastPurchaseDate = None,
      segments = [''low_value'']\<rparr>"

definition exampleOrder :: order where
  "exampleOrder =
     \<lparr>order_id = ''o1'', order_customer = Some ''u1'', order_total = 250, order_items = 2,
      order_createdAt = 99000000\<rparr>"

definition noDraws :: "nat \<Rightarrow> rat" where
  "noDraws n = 3 / 10"

definition noMessages :: "objectId \<Rightarrow> nat" where
  "noMessages customerId = 0"

definition noTemplates :: "channel \<Rightarrow> string option \<Rightarrow> string option \<Rightarrow> objectId option" where
  "noTemplates ch style offer = None"

definition zeroCounters :: "'k \<Rightarrow> int" where
  "zeroCounters k = 0"

text \<open>
  A store with one business customer, one order placed 1000 seconds before the clock
  reading, one active cart idle since time 0, and an empty cache.
\<close>

definition exampleWorld :: world where
  "exampleWorld =
     \<lparr>now = 100000000, randomDraws = noDraws, drawsTaken = 0,
      customerStore = [''u1'' \<mapsto> exampleCustomer], orderStore = [exampleOrder],
      messageDocuments = noMessages, cartStore = [activeCartExample],
      findTemplate = noTemplates, segmentsCache = Map.empty, messageCountCache = Map.empty,
      abAssignments = Map.empty, abConversions = Map.empty, abImpressions = Map.empty,
      recoveryPlans = Map.empty, abandonmentsTotal = 0, abandonmentsValue = 0,
      abandonmentsDaily = zeroCounters, realtimeSales = [], salesDaily = zeroCounters,
      salesSegments = zeroCounters, timers = []\<rparr>"

text \<open>A rule that throws \<open>new Error('rule failed')\<close>.\<close>

definition throwingRule :: rule where
  "throwingRule c w = (Inl (JsError ''Error'' ''rule failed''), w)"

text \<open>
  The example store after an earlier classification of the customer was cached, still
  unexpired, with the label \<open>low_value\<close>; the customer has spent 20000 since.
\<close>

definition staleWorld :: world where
  "staleWorld = exampleWorld\<lparr>segmentsCache := [''u1'' \<mapsto> ([''low_value''], 100001000)]\<rparr>"

text \<open>The example store with four impressions recorded for one variant by hand.\<close>

definition impressionsWorld :: world where
  "impressionsWorld = exampleWorld\<lparr>abImpressions := [(''timing'', ''immediate'') \<mapsto> 4]\<rparr>"

section \<open>Theorems\<close>

subsection \<open>Binary64 rounding\<close>

lemma floor_rat_numeral: "\<lfloor>(numeral a :: rat) / numeral b\<rfloor> = numeral a div numeral b"
  using floor_divide_of_int_eq [of "numeral a" "numeral b", where ?'a = rat] by simp

lemma ceiling_rat_numeral: "\<lceil>(numeral a :: rat) / numeral b\<rceil> = - (- numeral a div numeral b)"
  using floor_divide_of_int_eq [of "- numeral a" "numeral b", where ?'a = rat]
  by (simp add: ceiling_def)

lemma bitlen_One: "bitlen 1 = 1"
  by (subst compute_bitlen) simp

lemma bitlen_Bit0: "bitlen (numeral (Num.Bit0 n)) = bitlen (numeral n) + 1"
  by (subst compute_bitlen) simp

lemma bitlen_Bit1: "bitlen (numeral (Num.Bit1 n)) = bitlen (numeral n) + 1"
  by (subst compute_bitlen) simp

lemma bitlen_NumOne: "bitlen (numeral Num.One) = 1"
  by (subst compute_bitlen) simp

lemma bitlen_neg: "bitlen (- numeral n) = 0"
  by (subst compute_bitlen) simp

lemmas double_eval =
  round_double_def exponentOf_def roundHalfEven_def pow2_def Let_def
  floor_rat_numeral ceiling_rat_numeral bitlen_One bitlen_Bit0 bitlen_Bit1 bitlen_NumOne bitlen_neg

lemma pow2_pos: "0 < pow2 e"
  by (simp add: pow2_def)

lemma roundHalfEven_error: "\<bar>x - of_int (roundHalfEven x)\<bar> \<le> 1 / 2"
proof -
  have "of_int \<lfloor>x\<rfloor> \<le> x" "x < of_int \<lfloor>x\<rfloor> + 1"
    by linarith+
  then show ?thesis
    by (auto simp add: roundHalfEven_def Let_def)
qed

lemma abs_scale:
  fixes p x m :: rat
  assumes "0 < p"
  shows "\<bar>x / p - m\<bar> * p = \<bar>x - m * p\<bar>"
proof -
  have "x - m * p = (x / p - m) * p"
    using assms by (simp add: left_diff_distrib)
  then have "\<bar>x - m * p\<bar> = \<bar>x / p - m\<bar> * \<bar>p\<bar>"
    by (simp only: abs_mult)
  with assms show ?thesis by simp
qed

text \<open>
  \<open>exponentOf\<close> is the binary exponent, and a finite result of \<open>round_double\<close> lies
  within half a unit in the last place of the exact value.
\<close>

lemma exponentOf_bounds:
  assumes "0 < a"
  shows "pow2 (exponentOf a) \<le> a \<and> a < pow2 (exponentOf a + 1)"
proof (cases "1 \<le> a")
  case True
  let ?n = "\<lfloor>a\<rfloor>"
  let ?k = "nat (bitlen ?n - 1)"
  from True have n: "0 < ?n" by simp
  from bitlen_bounds [OF n] have lo: "2 ^ ?k \<le> ?n" and hi: "?n < 2 ^ nat (bitlen ?n)"
    by simp_all
  from n have bl: "1 \<le> bitlen ?n"
    by (simp add: bitlen_alt_def)
  have e: "exponentOf a = bitlen ?n - 1"
    using True by (simp add: exponentOf_def)
  have pk: "pow2 (exponentOf a) = 2 ^ ?k"
    using bl e by (simp add: pow2_def)
  have pk1: "pow2 (exponentOf a + 1) = 2 ^ nat (bitlen ?n)"
    using bl e by (simp add: pow2_def)
  have "(2::rat) ^ ?k = of_int (2 ^ ?k)" by simp
  also have "\<dots> \<le> of_int ?n" using lo by (simp only: of_int_le_iff)
  also have "\<dots> \<le> a" by simp
  finally have 1: "pow2 (exponentOf a) \<le> a" using pk by simp
  from hi have "?n + 1 \<le> 2 ^ nat (bitlen ?n)" by simp
  then have "(of_int (?n + 1) :: rat) \<le> of_int (2 ^ nat (bitlen ?n))"
    by (simp only: of_int_le_iff)
  then have "(of_int ?n :: rat) + 1 \<le> 2 ^ nat (bitlen ?n)" by simp
  moreover have "a < of_int ?n + 1" by linarith
  ultimately have "a < 2 ^ nat (bitlen ?n)" by linarith
  then have 2: "a < pow2 (exponentOf a + 1)" using pk1 by simp
  show ?thesis using 1 2 by simp
next
  case False
  let ?b = "1 / a"
  let ?c = "\<lceil>?b\<rceil>"
  let ?j = "nat (bitlen (?c - 1))"
  from False assms have b: "1 < ?b" by simp
  then have "1 < ?c" by (simp add: less_ceiling_iff)
  then have c: "0 < ?c - 1" by simp
  from bitlen_bounds [OF c] have lo: "2 ^ nat (bitlen (?c - 1) - 1) \<le> ?c - 1"
    and hi: "?c - 1 < 2 ^ ?j"
    by simp_all
  from c have bl: "1 \<le> bitlen (?c - 1)"
    by (simp add: bitlen_alt_def)
  have e: "exponentOf a = - bitlen (?c - 1)"
    using False by (simp add: exponentOf_def)
  have pk: "pow2 (exponentOf a) = 1 / 2 ^ ?j"
    using bl e by (simp add: pow2_def)
  have pk1: "pow2 (exponentOf a + 1) = 1 / 2 ^ nat (bitlen (?c - 1) - 1)"
    using bl e by (cases "bitlen (?c - 1) = 1") (simp_all add: pow2_def)
  from hi have "?c \<le> 2 ^ ?j" by simp
  then have "(of_int ?c :: rat) \<le> of_int (2 ^ ?j)" by (simp only: of_int_le_iff)
  then have "(of_int ?c :: rat) \<le> 2 ^ ?j" by simp
  moreover have "?b \<le> of_int ?c" by (rule le_of_int_ceiling)
  ultimately have bj: "?b \<le> 2 ^ ?j" by linarith
  have "1 / 2 ^ ?j \<le> a"
  proof -
    from bj have "1 \<le> 2 ^ ?j * a"
      using assms by (simp add: pos_divide_le_eq)
    then show ?thesis by (simp add: pos_divide_le_eq mult.commute)
  qed
  then have 1: "pow2 (exponentOf a) \<le> a" using pk by simp
  have "(2::rat) ^ nat (bitlen (?c - 1) - 1) = of_int (2 ^ nat (bitlen (?c - 1) - 1))" by simp
  also have "\<dots> \<le> of_int (?c - 1)" using lo by (simp only: of_int_le_iff)
  also have "\<dots> < ?b" using of_int_ceiling_diff_one_le [of ?b] by (simp add: ceiling_correct)
  finally have lt: "2 ^ nat (bitlen (?c - 1) - 1) < ?b" .
  have "a < 1 / 2 ^ nat (bitlen (?c - 1) - 1)"
  proof -
    from lt have "2 ^ nat (bitlen (?c - 1) - 1) * a < 1"
      using assms by (simp add: pos_less_divide_eq)
    then show ?thesis by (simp add: pos_less_divide_eq mult.commute)
  qed
  then have 2: "a < pow2 (exponentOf a + 1)" using pk1 by simp
  show ?thesis using 1 2 by simp
qed

lemma round_double_error:
  assumes "round_double q = Fin r"
  shows "\<bar>q - r\<bar> \<le> pow2 (max (exponentOf \<bar>q\<bar> - 52) (- 1074)) / 2"
proof (cases "q = 0")
  case True
  with assms have "r = 0" by (simp add: round_double_def)
  with True show ?thesis using pow2_pos [of "max (exponentOf \<bar>q\<bar> - 52) (- 1074)"]
    by simp
next
  case False
  define e where "e = max (exponentOf \<bar>q\<bar> - 52) (- 1074)"
  define m where "m = roundHalfEven (\<bar>q\<bar> / pow2 e)"
  from assms False have r: "r = (if 0 < q then of_int m * pow2 e else - (of_int m * pow2 e))"
    unfolding e_def m_def by (simp add: round_double_def Let_def split: if_splits)
  have p: "0 < pow2 e" by (rule pow2_pos)
  have "\<bar>\<bar>q\<bar> / pow2 e - of_int m\<bar> \<le> 1 / 2"
    unfolding m_def by (rule roundHalfEven_error)
  then have "\<bar>\<bar>q\<bar> / pow2 e - of_int m\<bar> * pow2 e \<le> 1 / 2 * pow2 e"
    using p by (simp only: mult_le_cancel_right_pos)
  then have k: "\<bar>\<bar>q\<bar> - of_int m * pow2 e\<bar> \<le> pow2 e / 2"
    using abs_scale [OF p, of "\<bar>q\<bar>" "of_int m"] by simp
  have "\<bar>q - r\<bar> = \<bar>\<bar>q\<bar> - of_int m * pow2 e\<bar>"
  proof (cases "0 < q")
    case True
    with r show ?thesis by simp
  next
    case F: False
    with False have "q < 0" by simp
    with r show ?thesis by (simp add: abs_if)
  qed
  with k show ?thesis unfolding e_def by simp
qed

text \<open>
  One third is not a binary64 value: it rounds to 6004799503160661 / 2^54, and a hundred
  times that rounds to 2345624805922133 / 2^46, which prints as 33.33333333333333.
  Two fifths rounds to 3602879701896397 / 2^53, and a hundred times that to 40.
\<close>

lemma round_double_examples:
  "round_double (1 / 3) = Fin (6004799503160661 / 2 ^ 54)"
  "round_double (6004799503160661 / 2 ^ 54 * 100) = Fin (2345624805922133 / 2 ^ 46)"
  "round_double (- (2 / 5)) = Fin (- (3602879701896397 / 2 ^ 53))"
  "round_double (- (3602879701896397 / 2 ^ 53) * 100) = Fin (- 40)"
  "round_double (1 / 4) = Fin (1 / 4)"
  "round_double 25 = Fin 25"
  "round_double 1 = Fin 1"
  by (simp_all add: double_eval)

subsection \<open>Growth rates\<close>

lemma calculateGrowthRates_length: "length (calculateGrowthRates results) = length results"
  by (simp add: calculateGrowthRates_def)

lemma calculateGrowthRates_nth:
  "index < length results \<Longrightarrow>
     calculateGrowthRates results ! index =
       withGrowthRate (results ! index) (growthRateAt results index)"
  by (simp add: calculateGrowthRates_def)

lemma growthRates_100_150_90:
  "map growthRate (calculateGrowthRates (revenueBuckets [100, 150, 90]))
     = [Fin 0, Fin 50, Fin (- 40)]"
  by (simp add: calculateGrowthRates_def revenueBuckets_def withGrowthRate_def
      growthRateAt_def previousBucket_def js_minus_def js_div_def upt_rec double_eval)

lemma growthRates_3_4:
  "map growthRate (calculateGrowthRates (revenueBuckets [3, 4]))
     = [Fin 0, Fin (2345624805922133 / 2 ^ 46)]"
  by (simp add: calculateGrowthRates_def revenueBuckets_def withGrowthRate_def
      growthRateAt_def previousBucket_def js_minus_def js_div_def upt_rec double_eval)

text \<open>
  C6. The growth-rate computation keeps every bucket's own fields, gives the first bucket
  growth rate 0 and every later bucket the value that JavaScript computes for
  (current.revenue - previous.revenue) / previous.revenue * 100: the difference, the
  quotient and the product are each rounded to binary64, and a zero previous revenue gives
  an infinity or \<open>NaN\<close>. Where the three results are binary64 values as they stand, the
  growth rate is that rational number. Revenues [100, 150, 90] give growth rates
  [0, 50, -40]; revenues [3, 4] give [0, 33.33333333333333].
\<close>

theorem calculateGrowthRates_spec:
  "length (calculateGrowthRates results) = length results
   \<and> (\<forall>i < length results.
         bucket.truncate (calculateGrowthRates results ! i) = results ! i
         \<and> (i = 0 \<longrightarrow> growthRate (calculateGrowthRates results ! i) = Fin 0)
         \<and> (0 < i \<longrightarrow>
              growthRate (calculateGrowthRates results ! i) =
                js_times
                  (js_over (js_minus (revenue (results ! i)) (revenue (results ! (i - 1))))
                           (revenue (results ! (i - 1))))
                  100)
         \<and> (0 < i \<and> revenue (results ! (i - 1)) \<noteq> 0
              \<and> round_double (revenue (results ! i) - revenue (results ! (i - 1)))
                  = Fin (revenue (results ! i) - revenue (results ! (i - 1)))
              \<and> round_double ((revenue (results ! i) - revenue (results ! (i - 1)))
                                 / revenue (results ! (i - 1)))
                  = Fin ((revenue (results ! i) - revenue (results ! (i - 1)))
                           / revenue (results ! (i - 1)))
              \<and> round_double ((revenue (results ! i) - revenue (results ! (i - 1)))
                                 / revenue (results ! (i - 1)) * 100)
                  = Fin ((revenue (results ! i) - revenue (results ! (i - 1)))
                           / revenue (results ! (i - 1)) * 100)
              \<longrightarrow>
              growthRate (calculateGrowthRates results ! i) =
                Fin ((revenue (results ! i) - revenue (results ! (i - 1)))
                       / revenue (results ! (i - 1)) * 100)))
   \<and> map growthRate (calculateGrowthRates (revenueBuckets [100, 150, 90]))
       = [Fin 0, Fin 50, Fin (- 40)]
   \<and> map growthRate (calculateGrowthRates (revenueBuckets [3, 4]))
       = [Fin 0, Fin (2345624805922133 / 2 ^ 46)]"
proof (intro conjI allI impI)
  show "length (calculateGrowthRates results) = length results"
    by (rule calculateGrowthRates_length)
next
  fix i assume "i < length results"
  then show "bucket.truncate (calculateGrowthRates results ! i) = results ! i"
    by (simp add: calculateGrowthRates_nth withGrowthRate_def bucket.truncate_def)
next
  fix i assume "i < length results" "i = 0"
  then show "growthRate (calculateGrowthRates results ! i) = Fin 0"
    by (simp add: calculateGrowthRates_nth withGrowthRate_def growthRateAt_def
        previousBucket_def)
next
  fix i assume "i < length results" "0 < i"
  then show "growthRate (calculateGrowthRates results ! i) =
      js_times
        (js_over (js_minus (revenue (results ! i)) (revenue (results ! (i - 1))))
                 (revenue (results ! (i - 1))))
        100"
    by (simp add: calculateGrowthRates_nth withGrowthRate_def growthRateAt_def
        previousBucket_def)
next
  fix i
  let ?c = "revenue (results ! i)" and ?p = "revenue (results ! (i - 1))"
  assume i: "i < length results"
    and h: "0 < i \<and> ?p \<noteq> 0
      \<and> round_double (?c - ?p) = Fin (?c - ?p)
      \<and> round_double ((?c - ?p) / ?p) = Fin ((?c - ?p) / ?p)
      \<and> round_double ((?c - ?p) / ?p * 100) = Fin ((?c - ?p) / ?p * 100)"
  have "growthRate (calculateGrowthRates results ! i) =
      js_times (js_over (js_minus ?c ?p) ?p) 100"
    using i h by (simp add: calculateGrowthRates_nth withGrowthRate_def growthRateAt_def
        previousBucket_def)
  also have "js_minus ?c ?p = Fin (?c - ?p)"
    using h by (simp add: js_minus_def)
  also have "js_over (Fin (?c - ?p)) ?p = Fin ((?c - ?p) / ?p)"
    using h by (simp add: js_div_def)
  also have "js_times (Fin ((?c - ?p) / ?p)) 100 = Fin ((?c - ?p) / ?p * 100)"
    using h by simp
  finally show "growthRate (calculateGrowthRates results ! i) = Fin ((?c - ?p) / ?p * 100)" .
next
  show "map growthRate (calculateGrowthRates (revenueBuckets [100, 150, 90]))
       = [Fin 0, Fin 50, Fin (- 40)]"
    by (rule growthRates_100_150_90)
next
  show "map growthRate (calculateGrowthRates (revenueBuckets [3, 4]))
       = [Fin 0, Fin (2345624805922133 / 2 ^ 46)]"
    by (rule growthRates_3_4)
qed

theorem calculateGrowthRates_spec_witness:
  "(1::nat) < length (revenueBuckets [100, 150, 90]) \<and> (0::nat) < 1
   \<and> revenue (revenueBuckets [100, 150, 90] ! 0) \<noteq> 0
   \<and> round_double (revenue (revenueBuckets [100, 150, 90] ! 1)
                     - revenue (revenueBuckets [100, 150, 90] ! 0)) = Fin 50
   \<and> round_double (1 / 2) = Fin (1 / 2)
   \<and> growthRate (calculateGrowthRates (revenueBuckets [100, 150, 90]) ! 1) = Fin 50
   \<and> growthRate (calculateGrowthRates (revenueBuckets [100, 150, 90]) ! 0) = Fin 0"
proof -
  let ?rs = "revenueBuckets [100, 150, 90]"
  have len: "(1::nat) < length ?rs"
    by (simp add: revenueBuckets_def)
  have len0: "(0::nat) < length ?rs"
    by (simp add: revenueBuckets_def)
  have c: "revenue (?rs ! 1) = 150" and p: "revenue (?rs ! (1 - 1)) = 100" "revenue (?rs ! 0) = 100"
    by (simp_all add: revenueBuckets_def)
  have nz: "revenue (?rs ! 0) \<noteq> 0"
    using p by simp
  have r1: "round_double (revenue (?rs ! 1) - revenue (?rs ! (1 - 1)))
              = Fin (revenue (?rs ! 1) - revenue (?rs ! (1 - 1)))"
    unfolding c p by (simp add: double_eval)
  have r2: "round_double ((revenue (?rs ! 1) - revenue (?rs ! (1 - 1))) / revenue (?rs ! (1 - 1)))
              = Fin ((revenue (?rs ! 1) - revenue (?rs ! (1 - 1))) / revenue (?rs ! (1 - 1)))"
    unfolding c p by (simp add: double_eval)
  have r3: "round_double ((revenue (?rs ! 1) - revenue (?rs ! (1 - 1))) / revenue (?rs ! (1 - 1)) * 100)
              = Fin ((revenue (?rs ! 1) - revenue (?rs ! (1 - 1))) / revenue (?rs ! (1 - 1)) * 100)"
    unfolding c p by (simp add: double_eval)
  have half: "round_double (1 / 2) = Fin (1 / 2)"
    by (simp add: double_eval)
  note t = calculateGrowthRates_spec [of ?rs]
  from t len have "0 < (1::nat) \<and> revenue (?rs ! (1 - 1)) \<noteq> 0
        \<and> round_double (revenue (?rs ! 1) - revenue (?rs ! (1 - 1)))
            = Fin (revenue (?rs ! 1) - revenue (?rs ! (1 - 1)))
        \<and> round_double ((revenue (?rs ! 1) - revenue (?rs ! (1 - 1))) / revenue (?rs ! (1 - 1)))
            = Fin ((revenue (?rs ! 1) - revenue (?rs ! (1 - 1))) / revenue (?rs ! (1 - 1)))
        \<and> round_double ((revenue (?rs ! 1) - revenue (?rs ! (1 - 1))) / revenue (?rs ! (1 - 1)) * 100)
            = Fin ((revenue (?rs ! 1) - revenue (?rs ! (1 - 1))) / revenue (?rs ! (1 - 1)) * 100)
        \<longrightarrow> growthRate (calculateGrowthRates ?rs ! 1) =
            Fin ((revenue (?rs ! 1) - revenue (?rs ! (1 - 1))) / revenue (?rs ! (1 - 1)) * 100)"
    by blast
  with r1 r2 r3 p have "growthRate (calculateGrowthRates ?rs ! 1) =
            Fin ((revenue (?rs ! 1) - revenue (?rs ! (1 - 1))) / revenue (?rs ! (1 - 1)) * 100)"
    by simp
  then have a: "growthRate (calculateGrowthRates ?rs ! 1) = Fin 50"
    unfolding c p by simp
  from t len0 have b: "growthRate (calculateGrowthRates ?rs ! 0) = Fin 0"
    by blast
  have r1': "round_double (revenue (?rs ! 1) - revenue (?rs ! 0)) = Fin 50"
    unfolding c p by (simp add: double_eval)
  show ?thesis using len nz a b r1' half by simp
qed

subsection \<open>Recovery plan\<close>

lemma channels_determineRecoveryStrategy:
  "channels (fst (determineRecoveryStrategy crt c segs w)) = allowedChannels crt c segs"
  by (auto simp add: determineRecoveryStrategy_def allowedChannels_def baseChannels_def Let_def
      split: prod.splits)

lemma planLoop:
  "foldl (\<lambda>planAttempts i.
            (let chs = filter (\<lambda>ch. ch \<in> set allowed) (interval_channels i)
             in if 0 < length chs
                then planAttempts @
                       [\<lparr>scheduledFor = t + hours i * 60 * 60 * 1000,
                         attempt_channels = chs,
                         attempt_templates = tf chs\<rparr>]
                else planAttempts)) acc is
   = acc @ map (\<lambda>i. \<lparr>scheduledFor = t + hours i * 60 * 60 * 1000,
                         attempt_channels = intersection i allowed,
                         attempt_templates = tf (intersection i allowed)\<rparr>)
             (filter (\<lambda>i. intersection i allowed \<noteq> []) is)"
  by (induction "is" arbitrary: acc) (simp_all add: intersection_def Let_def)

lemma attempts_createRecoveryPlan:
  "attempts (createRecoveryPlan crt c s w) =
     map (\<lambda>i. \<lparr>scheduledFor = now w + hours i * 60 * 60 * 1000,
                 attempt_channels = intersection i (channels s),
                 attempt_templates = selectTemplates s (intersection i (channels s)) w\<rparr>)
       (filter (\<lambda>i. intersection i (channels s) \<noteq> []) RECOVERY_INTERVALS)"
  unfolding createRecoveryPlan_def
  using planLoop [of "channels s" "now w" "\<lambda>chs. selectTemplates s chs w" "[]" RECOVERY_INTERVALS]
  by simp

lemma allowedChannels_cases:
  "allowedChannels crt c segs =
     (if (''high_value'' \<in> set segs \<or> 1000 < totalValue crt) \<and> whatsappPreference c
      then [Whatsapp, Email] else [Email])"
  by (simp add: allowedChannels_def)

text \<open>
  The plan that \<open>processAbandonedCart\<close> stores for a cart is the one
  \<open>createRecoveryPlan\<close> builds from the strategy determined for it.
\<close>

lemma plan_of_processAbandonedCart:
  assumes "segmentCustomer defaultRules c
             (if status crt = Active then saveCart (abandon (now w) crt) w else w) = (Inr segs, w2)"
    and "determineRecoveryStrategy (abandon (now w) crt) c segs w2 = (s, w3)"
  shows "recoveryPlans (processAbandonedCart (crt, Some c) w) (cart_id crt)
         = Some (createRecoveryPlan (abandon (now w) crt) c s w3, now w3 + 7 * 24 * 60 * 60 * 1000)"
proof -
  have cid: "cart_id (abandon (now w) crt) = cart_id crt"
    by (simp add: abandon_def preSave_def)
  show ?thesis
    using assms cid
    by (simp add: processAbandonedCart_def initializeRecoveryWorkflow_def logAbandonment_def
        Let_def split: list.splits)
qed

text \<open>
  C1. The strategy's channel list is the allowed-channel set of the specification, and
  the plan holds, in the order of the recovery intervals, one attempt for each interval
  whose default channels meet the allowed set, carrying exactly the interval's channels
  that are allowed; an interval with no allowed channel gives no attempt. With WhatsApp
  allowed the attempts are 1 hour [whatsapp], 24 hours [email, whatsapp] and 72 hours
  [email]; otherwise 24 hours [email] and 72 hours [email]. A customer who opted out of
  WhatsApp gets no WhatsApp attempt.
\<close>

theorem recovery_plan_attempts:
  assumes "determineRecoveryStrategy crt c segs w = (s, w')"
  shows "channels s = allowedChannels crt c segs
   \<and> map (\<lambda>a. (scheduledFor a, attempt_channels a)) (attempts (createRecoveryPlan crt c s w'))
       = map (\<lambda>i. (now w' + hours i * 60 * 60 * 1000, intersection i (allowedChannels crt c segs)))
           (filter (\<lambda>i. intersection i (allowedChannels crt c segs) \<noteq> []) RECOVERY_INTERVALS)
   \<and> (whatsappPreference c = False \<longrightarrow>
         (\<forall>a \<in> set (attempts (createRecoveryPlan crt c s w')). Whatsapp \<notin> set (attempt_channels a)))
   \<and> map (\<lambda>a. (scheduledFor a - now w', attempt_channels a)) (attempts (createRecoveryPlan crt c s w'))
       = (if (''high_value'' \<in> set segs \<or> 1000 < totalValue crt) \<and> whatsappPreference c
          then [(3600000, [Whatsapp]), (86400000, [Email, Whatsapp]), (259200000, [Email])]
          else [(86400000, [Email]), (259200000, [Email])])"
proof -
  have ch: "channels s = allowedChannels crt c segs"
    using channels_determineRecoveryStrategy [of crt c segs w] assms by simp
  have a: "map (\<lambda>a. (scheduledFor a, attempt_channels a)) (attempts (createRecoveryPlan crt c s w'))
       = map (\<lambda>i. (now w' + hours i * 60 * 60 * 1000, intersection i (allowedChannels crt c segs)))
           (filter (\<lambda>i. intersection i (allowedChannels crt c segs) \<noteq> []) RECOVERY_INTERVALS)"
    by (simp add: attempts_createRecoveryPlan ch comp_def)
  have b: "map (\<lambda>a. (scheduledFor a - now w', attempt_channels a)) (attempts (createRecoveryPlan crt c s w'))
       = (if (''high_value'' \<in> set segs \<or> 1000 < totalValue crt) \<and> whatsappPreference c
          then [(3600000, [Whatsapp]), (86400000, [Email, Whatsapp]), (259200000, [Email])]
          else [(86400000, [Email]), (259200000, [Email])])"
    by (simp add: attempts_createRecoveryPlan ch allowedChannels_cases RECOVERY_INTERVALS_def
        intersection_def)
  have w: "whatsappPreference c = False \<longrightarrow>
         (\<forall>a \<in> set (attempts (createRecoveryPlan crt c s w')). Whatsapp \<notin> set (attempt_channels a))"
    by (simp add: attempts_createRecoveryPlan ch allowedChannels_cases RECOVERY_INTERVALS_def
        intersection_def)
  show ?thesis using ch a b w by blast
qed

theorem recovery_plan_attempts_witness:
  "determineRecoveryStrategy activeCartExample
       (exampleCustomer\<lparr>whatsappPreference := False\<rparr>) [''high_value''] exampleWorld
     = (fst (determineRecoveryStrategy activeCartExample
               (exampleCustomer\<lparr>whatsappPreference := False\<rparr>) [''high_value''] exampleWorld),
        snd (determineRecoveryStrategy activeCartExample
               (exampleCustomer\<lparr>whatsappPreference := False\<rparr>) [''high_value''] exampleWorld))
   \<and> whatsappPreference (exampleCustomer\<lparr>whatsappPreference := False\<rparr>) = False
   \<and> map (\<lambda>a. (scheduledFor a
                   - now (snd (determineRecoveryStrategy activeCartExample
                                (exampleCustomer\<lparr>whatsappPreference := False\<rparr>)
                                [''high_value''] exampleWorld)),
                 attempt_channels a))
         (attempts (createRecoveryPlan activeCartExample
            (exampleCustomer\<lparr>whatsappPreference := False\<rparr>)
            (fst (determineRecoveryStrategy activeCartExample
                    (exampleCustomer\<lparr>whatsappPreference := False\<rparr>) [''high_value''] exampleWorld))
            (snd (determineRecoveryStrategy activeCartExample
                    (exampleCustomer\<lparr>whatsappPreference := False\<rparr>) [''high_value''] exampleWorld))))
       = [(86400000, [Email]), (259200000, [Email])]"
proof -
  let ?c = "exampleCustomer\<lparr>whatsappPreference := False\<rparr>"
  let ?r = "determineRecoveryStrategy activeCartExample ?c [''high_value''] exampleWorld"
  have h: "?r = (fst ?r, snd ?r)"
    by simp
  have p: "whatsappPreference ?c = False"
    by simp
  note t = recovery_plan_attempts [OF h]
  from t have "map (\<lambda>a. (scheduledFor a - now (snd ?r), attempt_channels a))
          (attempts (createRecoveryPlan activeCartExample ?c (fst ?r) (snd ?r)))
        = (if (''high_value'' \<in> set [''high_value''] \<or> 1000 < totalValue activeCartExample)
                \<and> whatsappPreference ?c
           then [(3600000, [Whatsapp]), (86400000, [Email, Whatsapp]), (259200000, [Email])]
           else [(86400000, [Email]), (259200000, [Email])])"
    by blast
  then show ?thesis using h p by simp
qed

subsection \<open>Cart state machine\<close>

lemma status_preSave: "status (preSave c) = status c"
  by (simp add: preSave_def)

text \<open>
  C5, as stated, fails: \<open>convert\<close> has no guard, so an active cart becomes converted,
  a transition that the specification's state machine does not have.
\<close>

theorem convert_from_active_counterexample:
  "status activeCartExample = Active
   \<and> status (convert activeCartExample) = Converted
   \<and> \<not> specTransition (status activeCartExample) (status (convert activeCartExample))"
  by (simp add: activeCartExample_def convert_def preSave_def)

text \<open>
  C5, amended. \<open>abandon\<close> changes only active carts and \<open>recover\<close> only abandoned
  carts; \<open>convert\<close> and \<open>expire\<close> set their status from every status, and
  \<open>updateRecoveryResponse\<close> sets converted from every status when the attempt exists
  and the response is converted. Every change of status is therefore one of
  active to abandoned, abandoned to active, anything to converted, anything to expired.
\<close>
theorem cart_transitions:
  "status (abandon t c) = (if status c = Active then Abandoned else status c)
   \<and> (status c \<noteq> Active \<longrightarrow> abandon t c = c)
   \<and> status (recover t c) = (if status c = Abandoned then Active else status c)
   \<and> (status c \<noteq> Abandoned \<longrightarrow> recover t c = c)
   \<and> status (convert c) = Converted
   \<and> status (expire c) = Expired
   \<and> status (updateRecoveryResponse a r c) =
       (if findAttempt (recoveryAttempts c) a \<noteq> None \<and> r = ConvertedResponse
        then Converted else status c)
   \<and> (\<forall>c' \<in> {abandon t c, recover t c, convert c, expire c, updateRecoveryResponse a r c}.
         status c' = status c \<or> codeTransition (status c) (status c'))"
proof -
  have 1: "status (abandon t c) = (if status c = Active then Abandoned else status c)"
    by (simp add: abandon_def status_preSave)
  have 2: "status c \<noteq> Active \<longrightarrow> abandon t c = c"
    by (simp add: abandon_def)
  have 3: "status (recover t c) = (if status c = Abandoned then Active else status c)"
    by (simp add: recover_def status_preSave)
  have 4: "status c \<noteq> Abandoned \<longrightarrow> recover t c = c"
    by (simp add: recover_def)
  have 5: "status (convert c) = Converted"
    by (simp add: convert_def status_preSave)
  have 6: "status (expire c) = Expired"
    by (simp add: expire_def status_preSave)
  have 7: "status (updateRecoveryResponse a r c) =
       (if findAttempt (recoveryAttempts c) a \<noteq> None \<and> r = ConvertedResponse
        then Converted else status c)"
    by (simp add: updateRecoveryResponse_def status_preSave Let_def split: option.splits)
  have 8: "\<forall>c' \<in> {abandon t c, recover t c, convert c, expire c, updateRecoveryResponse a r c}.
         status c' = status c \<or> codeTransition (status c) (status c')"
    using 1 3 5 6 7 by (cases "status c") auto
  show ?thesis using 1 2 3 4 5 6 7 8 by blast
qed

theorem cart_transitions_witness:
  "status (convert activeCartExample) \<noteq> Active
   \<and> status (convert activeCartExample) \<noteq> Abandoned
   \<and> abandon 5 (convert activeCartExample) = convert activeCartExample
   \<and> recover 5 (convert activeCartExample) = convert activeCartExample
   \<and> status (abandon 5 activeCartExample) = Abandoned
   \<and> convert activeCartExample \<in> {abandon 5 activeCartExample, recover 5 activeCartExample,
         convert activeCartExample, expire activeCartExample,
         updateRecoveryResponse ''a1'' Opened activeCartExample}
   \<and> codeTransition (status activeCartExample) (status (convert activeCartExample))"
proof -
  have s: "status (convert activeCartExample) = Converted" "status activeCartExample = Active"
    by (simp_all add: activeCartExample_def convert_def preSave_def)
  show ?thesis
    using cart_transitions [of 5 "convert activeCartExample" "''a1''" Opened]
      cart_transitions [of 5 activeCartExample "''a1''" Opened] s
    by simp
qed

subsection \<open>Purchase-frequency rule\<close>

text \<open>
  C10. When the customer has an order and the first fetched one was created less than a
  day before the clock reading, the floored number of days is zero, the quotient is
  positive infinity, and the frequency rule returns \<open>frequent_buyer\<close> without throwing.
\<close>

theorem purchase_frequency_zero_days:
  assumes "filter (\<lambda>doc. order_customer doc = Some (customer_id c)) (orderStore w) = firstOrder # rest"
    and "order_createdAt firstOrder \<le> now w"
    and "now w < order_createdAt firstOrder + dayMillis"
  shows "(now w - order_createdAt firstOrder) div dayMillis = 0
         \<and> js_div (of_nat (length (firstOrder # rest))) 0 = PosInf
         \<and> purchase_frequency c w = (Inr [''frequent_buyer''], w)"
proof -
  have d: "(now w - order_createdAt firstOrder) div dayMillis = 0"
    using assms(2,3) by (simp add: dayMillis_def)
  have q: "js_div (of_nat (length (firstOrder # rest))) 0 = PosInf"
    by (simp add: js_div_def)
  show ?thesis
    using assms(1) d q by (simp add: purchase_frequency_def Let_def js_div_def)
qed

theorem purchase_frequency_zero_days_witness:
  "filter (\<lambda>doc. order_customer doc = Some (customer_id exampleCustomer)) (orderStore exampleWorld)
     = exampleOrder # []
   \<and> order_createdAt exampleOrder \<le> now exampleWorld
   \<and> now exampleWorld < order_createdAt exampleOrder + dayMillis
   \<and> purchase_frequency exampleCustomer exampleWorld = (Inr [''frequent_buyer''], exampleWorld)"
proof -
  have a: "filter (\<lambda>doc. order_customer doc = Some (customer_id exampleCustomer)) (orderStore exampleWorld)
     = exampleOrder # []"
    by (simp add: exampleWorld_def exampleOrder_def exampleCustomer_def)
  have b: "order_createdAt exampleOrder \<le> now exampleWorld"
    by (simp add: exampleWorld_def exampleOrder_def)
  have c: "now exampleWorld < order_createdAt exampleOrder + dayMillis"
    by (simp add: exampleWorld_def exampleOrder_def dayMillis_def)
  show ?thesis
    using purchase_frequency_zero_days [OF a b c] a b c by simp
qed


subsection \<open>Segmentation\<close>

lemma set_foldl_setAdd: "set (foldl setAdd segs xs) = set segs \<union> set xs"
  by (induction xs arbitrary: segs) (auto simp add: setAdd_def)

lemma distinct_foldl_setAdd: "distinct segs \<Longrightarrow> distinct (foldl setAdd segs xs)"
  by (induction xs arbitrary: segs) (auto simp add: setAdd_def)

lemma applyRules_ok:
  "ruleOutputs rs c w = (Inr ls, w1) \<Longrightarrow>
     applyRules rs c segs w = (Inr (foldl setAdd segs (concat ls)), w1)"
proof (induction rs arbitrary: segs w ls)
  case Nil
  then show ?case by simp
next
  case (Cons nr rs)
  obtain n r where nr: "nr = (n, r)" by (cases nr)
  show ?case
  proof (cases "r c w")
    case (Pair res w0)
    show ?thesis
    proof (cases res)
      case (Inl e)
      with Cons.prems nr Pair show ?thesis by simp
    next
      case (Inr labels)
      with Cons.prems nr Pair obtain ls' where
        ro: "ruleOutputs rs c w0 = (Inr ls', w1)" and ls: "ls = labels # ls'"
        by (auto split: prod.splits sum.splits)
      from Cons.IH [OF ro] nr Pair Inr ls show ?thesis by simp
    qed
  qed
qed

lemma applyRules_throw:
  "ruleOutputs rs c w = (Inl e, w1) \<Longrightarrow> applyRules rs c segs w = (Inl e, w1)"
proof (induction rs arbitrary: segs w)
  case Nil
  then show ?case by simp
next
  case (Cons nr rs)
  obtain n r where nr: "nr = (n, r)" by (cases nr)
  show ?case
  proof (cases "r c w")
    case (Pair res w0)
    show ?thesis
    proof (cases res)
      case (Inl e')
      with Cons.prems nr Pair show ?thesis by simp
    next
      case (Inr labels)
      with Cons.prems nr Pair have ro: "ruleOutputs rs c w0 = (Inl e, w1)"
        by (auto split: prod.splits sum.splits)
      from Cons.IH [OF ro] nr Pair Inr show ?thesis by simp
    qed
  qed
qed

lemma ruleOutputs_throw_origin:
  "ruleOutputs rs c w = (Inl e, w1) \<Longrightarrow> \<exists>(n, r) \<in> set rs. \<exists>w0. r c w0 = (Inl e, w1)"
proof (induction rs arbitrary: w)
  case Nil
  then show ?case by simp
next
  case (Cons nr rs)
  obtain n r where nr: "nr = (n, r)" by (cases nr)
  show ?case
  proof (cases "r c w")
    case (Pair res w0)
    show ?thesis
    proof (cases res)
      case (Inl e')
      with Cons.prems nr Pair have "r c w = (Inl e, w1)" by simp
      with nr show ?thesis by auto
    next
      case (Inr labels)
      with Cons.prems nr Pair have ro: "ruleOutputs rs c w0 = (Inl e, w1)"
        by (auto split: prod.splits sum.splits)
      from Cons.IH [OF ro] show ?thesis by auto
    qed
  qed
qed

lemma ruleOutputs_frame:
  "\<forall>(n, r) \<in> set rs. keepsSegments r \<Longrightarrow>
     segmentsCache (snd (ruleOutputs rs c w)) = segmentsCache w
     \<and> customerStore (snd (ruleOutputs rs c w)) = customerStore w"
proof (induction rs arbitrary: w)
  case Nil
  then show ?case by simp
next
  case (Cons nr rs)
  obtain n r where nr: "nr = (n, r)" by (cases nr)
  from Cons.prems nr have k: "keepsSegments r" and ks: "\<forall>(n, r) \<in> set rs. keepsSegments r"
    by auto
  from k have kr: "segmentsCache (snd (r c w)) = segmentsCache w"
      "customerStore (snd (r c w)) = customerStore w"
    by (simp_all add: keepsSegments_def)
  show ?case
  proof (cases "r c w")
    case (Pair res w0)
    with kr have w0: "segmentsCache w0 = segmentsCache w" "customerStore w0 = customerStore w"
      by simp_all
    show ?thesis
    proof (cases res)
      case (Inl e')
      with nr Pair w0 show ?thesis by simp
    next
      case (Inr labels)
      from Cons.IH [OF ks, of w0] w0 nr Pair Inr show ?thesis
        by (auto split: prod.splits sum.splits)
    qed
  qed
qed

lemma defaultRules_names:
  "map fst defaultRules =
     [''purchase_frequency'', ''spending_level'', ''engagement_level'', ''purchase_recency'']"
  by (simp add: defaultRules_def addRule_def)

lemma defaultRules_eq:
  "defaultRules =
     [(''purchase_frequency'', purchase_frequency), (''spending_level'', spending_level),
      (''engagement_level'', engagement_level), (''purchase_recency'', purchase_recency)]"
  by (simp add: defaultRules_def addRule_def)

text \<open>
  C2. On a cache miss, when every registered rule returns, \<open>segmentCustomer\<close> returns
  the labels of the rules, taken in registration order (frequency, spend, engagement,
  recency by default), followed by \<open>business_account\<close> for a business customer and
  \<open>loyalty_<tier>\<close> for the customer's tier, without duplicates, and stores that list
  under the customer's id with an expiry 3600 seconds after the clock reading.
\<close>

theorem segmentCustomer_miss:
  assumes "getWithExpiry (segmentsCache w) (now w) (customer_id c) = None"
    and "ruleOutputs rules c w = (Inr ls, w1)"
  shows "segmentCustomer rules c w =
           (Inr (foldl setAdd [] (concat ls @ derivedLabels c)),
            w1\<lparr>segmentsCache := (segmentsCache w1)(customer_id c \<mapsto>
                  (foldl setAdd [] (concat ls @ derivedLabels c), now w1 + 3600 * 1000))\<rparr>)
   \<and> distinct (foldl setAdd [] (concat ls @ derivedLabels c))
   \<and> set (foldl setAdd [] (concat ls @ derivedLabels c))
       = \<Union> (set ` set ls)
         \<union> (if kind c = Business then {''business_account''} else {})
         \<union> (case loyaltyTier c of None \<Rightarrow> {} | Some tier \<Rightarrow> {''loyalty_'' @ tierName tier})
   \<and> map fst defaultRules =
       [''purchase_frequency'', ''spending_level'', ''engagement_level'', ''purchase_recency'']"
proof -
  let ?L = "foldl setAdd [] (concat ls @ derivedLabels c)"
  have ar: "applyRules rules c [] w = (Inr (foldl setAdd [] (concat ls)), w1)"
    by (rule applyRules_ok [OF assms(2)])
  have d: "foldl setAdd (foldl setAdd [] (concat ls)) (derivedLabels c) = ?L"
    by simp
  have e: "(case loyaltyTier c of
              None \<Rightarrow> (if kind c = Business then setAdd segs ''business_account'' else segs)
            | Some tier \<Rightarrow> setAdd (if kind c = Business then setAdd segs ''business_account'' else segs)
                             (''loyalty_'' @ tierName tier))
           = foldl setAdd segs (derivedLabels c)" for segs
    by (simp add: derivedLabels_def split: option.splits)
  have 1: "segmentCustomer rules c w =
           (Inr ?L, w1\<lparr>segmentsCache := (segmentsCache w1)(customer_id c \<mapsto> (?L, now w1 + 3600 * 1000))\<rparr>)"
    using assms(1) ar e [of "foldl setAdd [] (concat ls)"]
    by (simp add: segmentCustomer_def Let_def CACHE_TTL_def)
  have 2: "distinct ?L"
    by (rule distinct_foldl_setAdd) simp
  have 3: "set ?L = \<Union> (set ` set ls)
         \<union> (if kind c = Business then {''business_account''} else {})
         \<union> (case loyaltyTier c of None \<Rightarrow> {} | Some tier \<Rightarrow> {''loyalty_'' @ tierName tier})"
    by (auto simp add: set_foldl_setAdd derivedLabels_def split: option.splits)
  show ?thesis using 1 2 3 defaultRules_names by blast
qed

text \<open>
  C4, amended. When a rule throws on a cache miss, \<open>segmentCustomer\<close> returns no
  labels: it fails with the very error that rule threw, and so does
  \<open>updateCustomerSegments\<close>. With rules that leave the cached classifications and the
  customer documents alone (as the default rules do), both are as they were before the
  call.
\<close>

theorem segmentCustomer_rule_throws:
  assumes "getWithExpiry (segmentsCache w) (now w) (customer_id c) = None"
    and "ruleOutputs rules c w = (Inl e, w1)"
    and "\<forall>(n, r) \<in> set rules. keepsSegments r"
  shows "segmentCustomer rules c w = (Inl e, w1)
   \<and> (\<exists>(n, r) \<in> set rules. \<exists>w0. r c w0 = (Inl e, w1))
   \<and> segmentsCache w1 = segmentsCache w
   \<and> customerStore w1 = customerStore w
   \<and> (customerStore w customerId = Some c \<longrightarrow>
         updateCustomerSegments rules customerId w = (Inl e, w1))"
proof -
  have 1: "segmentCustomer rules c w = (Inl e, w1)"
    using assms(1) applyRules_throw [OF assms(2)] by (simp add: segmentCustomer_def)
  have 2: "\<exists>(n, r) \<in> set rules. \<exists>w0. r c w0 = (Inl e, w1)"
    by (rule ruleOutputs_throw_origin [OF assms(2)])
  have 3: "segmentsCache w1 = segmentsCache w \<and> customerStore w1 = customerStore w"
    using ruleOutputs_frame [OF assms(3), of c w] assms(2) by simp
  have 4: "customerStore w customerId = Some c \<longrightarrow>
         updateCustomerSegments rules customerId w = (Inl e, w1)"
    using 1 by (simp add: updateCustomerSegments_def)
  show ?thesis using 1 2 3 4 by blast
qed


lemmas example_eval =
  segmentCustomer_def getWithExpiry_def exampleWorld_def exampleCustomer_def
  defaultRules_eq addRule_def throwingRule_def purchase_frequency_def spending_level_def
  engagement_level_def purchase_recency_def getCustomerMessageCount_def Let_def
  exampleOrder_def dayMillis_def js_div_def noMessages_def setAdd_def CACHE_TTL_def

lemma keepsSegments_defaultRules: "\<forall>(n, r) \<in> set defaultRules. keepsSegments r"
  by (simp add: defaultRules_eq keepsSegments_def purchase_frequency_def spending_level_def
      engagement_level_def purchase_recency_def getCustomerMessageCount_def Let_def
      split: list.splits option.splits prod.splits)

lemma keepsSegments_throwingRule: "keepsSegments throwingRule"
  by (simp add: keepsSegments_def throwingRule_def)

lemma example_ruleOutputs:
  "fst (ruleOutputs defaultRules exampleCustomer exampleWorld) =
     Inr [[''frequent_buyer''], [''high_value''], [''low_engagement'', ''whatsapp_enabled''],
          [''never_purchased'']]"
  by (simp add: example_eval)

theorem segmentCustomer_miss_witness:
  "getWithExpiry (segmentsCache exampleWorld) (now exampleWorld) (customer_id exampleCustomer) = None
   \<and> fst (segmentCustomer defaultRules exampleCustomer exampleWorld) =
       Inr [''frequent_buyer'', ''high_value'', ''low_engagement'', ''whatsapp_enabled'',
            ''never_purchased'', ''business_account'', ''loyalty_gold'']"
proof -
  have m: "getWithExpiry (segmentsCache exampleWorld) (now exampleWorld) (customer_id exampleCustomer) = None"
    by (simp add: getWithExpiry_def exampleWorld_def)
  have r: "ruleOutputs defaultRules exampleCustomer exampleWorld =
     (Inr [[''frequent_buyer''], [''high_value''], [''low_engagement'', ''whatsapp_enabled''],
          [''never_purchased'']], snd (ruleOutputs defaultRules exampleCustomer exampleWorld))"
    using example_ruleOutputs by (metis prod.collapse)
  have d: "derivedLabels exampleCustomer = [''business_account'', ''loyalty_gold'']"
    by (simp add: derivedLabels_def exampleCustomer_def)
  show ?thesis
    using segmentCustomer_miss [OF m r] m d by (simp add: setAdd_def)
qed

text \<open>
  C4, as stated, fails: a rule that throws \<open>new Error('rule failed')\<close> makes the
  classification fail with that same \<open>Error\<close>, not with a \<open>ClassificationError\<close>.
\<close>

theorem rule_error_not_wrapped_counterexample:
  "fst (segmentCustomer (addRule ''broken'' throwingRule defaultRules) exampleCustomer exampleWorld)
     = Inl (JsError ''Error'' ''rule failed'')
   \<and> errName (JsError ''Error'' ''rule failed'') \<noteq> ''ClassificationError''"
  by (simp add: example_eval)

theorem segmentCustomer_rule_throws_witness:
  "getWithExpiry (segmentsCache exampleWorld) (now exampleWorld) (customer_id exampleCustomer) = None
   \<and> keepsSegments throwingRule
   \<and> customerStore exampleWorld ''u1'' = Some exampleCustomer
   \<and> fst (updateCustomerSegments (addRule ''broken'' throwingRule defaultRules) ''u1'' exampleWorld)
       = Inl (JsError ''Error'' ''rule failed'')
   \<and> segmentsCache (snd (segmentCustomer (addRule ''broken'' throwingRule defaultRules)
                            exampleCustomer exampleWorld)) = segmentsCache exampleWorld"
proof -
  let ?rules = "addRule ''broken'' throwingRule defaultRules"
  have m: "getWithExpiry (segmentsCache exampleWorld) (now exampleWorld) (customer_id exampleCustomer) = None"
    by (simp add: getWithExpiry_def exampleWorld_def)
  have "fst (ruleOutputs ?rules exampleCustomer exampleWorld) = Inl (JsError ''Error'' ''rule failed'')"
    by (simp add: example_eval)
  then have r: "ruleOutputs ?rules exampleCustomer exampleWorld =
      (Inl (JsError ''Error'' ''rule failed''), snd (ruleOutputs ?rules exampleCustomer exampleWorld))"
    by (metis prod.collapse)
  have k: "\<forall>(n, r) \<in> set ?rules. keepsSegments r"
    using keepsSegments_defaultRules keepsSegments_throwingRule
    by (simp add: defaultRules_eq addRule_def)
  have s: "customerStore exampleWorld ''u1'' = Some exampleCustomer"
    by (simp add: exampleWorld_def)
  show ?thesis
    using segmentCustomer_rule_throws [OF m r k, of "''u1''"] m keepsSegments_throwingRule s
    by simp
qed

lemma updateCustomerSegments_persists:
  assumes "customerStore w customerId = Some c"
    and "segmentCustomer rules c w = (Inr segs, w1)"
  shows "fst (updateCustomerSegments rules customerId w) = Inr segs
   \<and> customerStore (snd (updateCustomerSegments rules customerId w)) customerId
       = Some (c\<lparr>segments := segs\<rparr>)
   \<and> segmentsCache (snd (updateCustomerSegments rules customerId w)) customerId = None"
  using assms by (simp add: updateCustomerSegments_def Let_def)

text \<open>
  C8 on a warm cache: the customer has spent 20000, so the rules would give
  \<open>high_value\<close>, but \<open>updateCustomerSegments\<close> returns and persists the cached
  \<open>low_value\<close> classification.
\<close>

theorem updateCustomerSegments_returns_cached:
  "getWithExpiry (segmentsCache staleWorld) (now staleWorld) ''u1'' = Some [''low_value'']
   \<and> fst (updateCustomerSegments defaultRules ''u1'' staleWorld) = Inr [''low_value'']
   \<and> map_option segments (customerStore (snd (updateCustomerSegments defaultRules ''u1'' staleWorld)) ''u1'')
       = Some [''low_value'']
   \<and> fst (segmentCustomer defaultRules exampleCustomer
             (staleWorld\<lparr>segmentsCache := (segmentsCache staleWorld)(''u1'' := None)\<rparr>))
       = Inr [''frequent_buyer'', ''high_value'', ''low_engagement'', ''whatsapp_enabled'',
              ''never_purchased'', ''business_account'', ''loyalty_gold'']"
  by (simp add: updateCustomerSegments_def staleWorld_def example_eval)


subsection \<open>Real-time sales window\<close>



















subsection \<open>Experiments\<close>

lemma abTests_eq:
  "abTests =
     [(''message_style'',
       \<lparr>variants = [''persuasive'', ''informative'', ''urgent''],
        distribution = [33 / 100, 33 / 100, 34 / 100], active = True\<rparr>),
      (''discount_offer'',
       \<lparr>variants = [''none'', ''10_percent'', ''20_percent''],
        distribution = [33 / 100, 33 / 100, 34 / 100], active = True\<rparr>),
      (''timing'',
       \<lparr>variants = [''immediate'', ''delayed''], distribution = [1 / 2, 1 / 2], active = True\<rparr>)]"
  by (simp add: abTests_def)

lemma abImpressions_assignABTestVariant:
  "abImpressions (snd (assignABTestVariant testName customerId w)) = abImpressions w"
  by (simp add: assignABTestVariant_def mathRandom_def Let_def split: option.splits)

lemma abImpressions_updateOneTest:
  "abImpressions (snd (updateOneTest customerId acc nt)) = abImpressions (snd acc)"
proof -
  obtain v w1 where a: "assignABTestVariant (fst nt) customerId (snd acc) = (v, w1)"
    by (cases "assignABTestVariant (fst nt) customerId (snd acc)")
  then have "abImpressions w1 = abImpressions (snd acc)"
    using abImpressions_assignABTestVariant [of "fst nt" customerId "snd acc"] by simp
  with a show ?thesis
    by (simp add: updateOneTest_def Let_def split: option.splits)
qed

lemma abImpressions_updateABTestResults:
  "abImpressions (snd (updateABTestResults customerId w)) = abImpressions w"
proof -
  have "abImpressions (snd (foldl (updateOneTest customerId) acc ts)) = abImpressions (snd acc)"
    for acc ts
    by (induction ts arbitrary: acc) (simp_all add: abImpressions_updateOneTest)
  then show ?thesis by (simp add: updateABTestResults_def)
qed

lemmas abtest_eval =
  assignABTestVariant_def abTests_eq exampleWorld_def mathRandom_def selectVariant_def
  noDraws_def Let_def updateABTestResults_def updateOneTest_def incr_def js_div_def
  impressionsWorld_def round_double_examples

text \<open>
  C7 against the code: a first assignment for a customer stores the variant and leaves
  the impressions key of that variant unset (no operation writes it), so a conversion
  increments the conversions counter and reports no rate at all. Only with an
  impressions value put into the cache from outside is a rate reported, and it is then
  conversions / impressions * 100.
\<close>

theorem assignment_counts_no_impression:
  "abAssignments exampleWorld (''timing'', ''u1'') = None
   \<and> fst (assignABTestVariant ''timing'' ''u1'' exampleWorld) = Some ''immediate''
   \<and> abAssignments (snd (assignABTestVariant ''timing'' ''u1'' exampleWorld)) (''timing'', ''u1'')
       = Some ''immediate''
   \<and> abImpressions (snd (assignABTestVariant ''timing'' ''u1'' exampleWorld)) (''timing'', ''immediate'')
       = None
   \<and> fst (updateABTestResults ''u1'' exampleWorld) = []
   \<and> abConversions (snd (updateABTestResults ''u1'' exampleWorld)) (''timing'', ''immediate'') = Some 1
   \<and> fst (updateABTestResults ''u1'' impressionsWorld) = [(''timing'', ''immediate'', Fin 25)]"
  by (simp add: abtest_eval)


subsection \<open>Abandonment sweep\<close>

text \<open>What the classification and the strategy leave alone.\<close>

lemma frame_defaultRules:
  "\<forall>(n, r) \<in> set defaultRules. \<forall>c w.
      now (snd (r c w)) = now w \<and> cartStore (snd (r c w)) = cartStore w
      \<and> recoveryPlans (snd (r c w)) = recoveryPlans w"
  by (simp add: defaultRules_eq purchase_frequency_def spending_level_def
      engagement_level_def purchase_recency_def getCustomerMessageCount_def Let_def
      split: list.splits option.splits prod.splits)

lemma frame_applyRules:
  assumes "\<forall>(n, r) \<in> set rs. \<forall>c w.
      now (snd (r c w)) = now w \<and> cartStore (snd (r c w)) = cartStore w
      \<and> recoveryPlans (snd (r c w)) = recoveryPlans w"
  shows "now (snd (applyRules rs c segs w)) = now w
     \<and> cartStore (snd (applyRules rs c segs w)) = cartStore w
     \<and> recoveryPlans (snd (applyRules rs c segs w)) = recoveryPlans w"
  using assms
proof (induction rs arbitrary: segs w)
  case Nil
  then show ?case by simp
next
  case (Cons nr rs)
  obtain n r where nr: "nr = (n, r)" by (cases nr)
  from Cons.prems nr have k: "now (snd (r c w)) = now w" "cartStore (snd (r c w)) = cartStore w"
      "recoveryPlans (snd (r c w)) = recoveryPlans w"
    by auto
  from Cons.prems have ks: "\<forall>(n, r) \<in> set rs. \<forall>c w.
      now (snd (r c w)) = now w \<and> cartStore (snd (r c w)) = cartStore w
      \<and> recoveryPlans (snd (r c w)) = recoveryPlans w"
    by auto
  show ?case
  proof (cases "r c w")
    case (Pair res w0)
    with k have w0: "now w0 = now w" "cartStore w0 = cartStore w" "recoveryPlans w0 = recoveryPlans w"
      by simp_all
    show ?thesis
    proof (cases res)
      case (Inl e)
      with nr Pair w0 show ?thesis by simp
    next
      case (Inr labels)
      from Cons.IH [OF ks, of "foldl setAdd segs labels" w0] w0 nr Pair Inr show ?thesis
        by simp
    qed
  qed
qed

lemma frame_segmentCustomer:
  "now (snd (segmentCustomer defaultRules c w)) = now w
   \<and> cartStore (snd (segmentCustomer defaultRules c w)) = cartStore w
   \<and> recoveryPlans (snd (segmentCustomer defaultRules c w)) = recoveryPlans w"
proof -
  note f = frame_applyRules [OF frame_defaultRules, of c "[]" w]
  show ?thesis
    using f by (auto simp add: segmentCustomer_def Let_def split: option.splits prod.splits sum.splits)
qed

lemma frame_assignABTestVariant:
  "now (snd (assignABTestVariant t cid w)) = now w
   \<and> cartStore (snd (assignABTestVariant t cid w)) = cartStore w
   \<and> recoveryPlans (snd (assignABTestVariant t cid w)) = recoveryPlans w"
  by (simp add: assignABTestVariant_def mathRandom_def Let_def split: option.splits)

lemma frame_determineRecoveryStrategy:
  "now (snd (determineRecoveryStrategy crt c segs w)) = now w
   \<and> cartStore (snd (determineRecoveryStrategy crt c segs w)) = cartStore w
   \<and> recoveryPlans (snd (determineRecoveryStrategy crt c segs w)) = recoveryPlans w"
  by (simp add: determineRecoveryStrategy_def Let_def case_prod_unfold frame_assignABTestVariant)

lemma frame_initializeRecoveryWorkflow:
  "now (initializeRecoveryWorkflow crt c s w) = now w
   \<and> cartStore (initializeRecoveryWorkflow crt c s w) = cartStore w
   \<and> (k \<noteq> cart_id crt \<longrightarrow> recoveryPlans (initializeRecoveryWorkflow crt c s w) k = recoveryPlans w k)"
  by (simp add: initializeRecoveryWorkflow_def Let_def split: list.splits)

lemma frame_logAbandonment:
  "now (logAbandonment crt w) = now w \<and> cartStore (logAbandonment crt w) = cartStore w
   \<and> recoveryPlans (logAbandonment crt w) = recoveryPlans w"
  by (simp add: logAbandonment_def)

lemma cart_id_abandon: "cart_id (abandon t crt) = cart_id crt"
  by (simp add: abandon_def preSave_def)

lemma frame_processAbandonedCart:
  "now (processAbandonedCart p w) = now w
   \<and> cartStore (processAbandonedCart p w) =
       (if status (fst p) = Active
        then map (\<lambda>d. if cart_id d = cart_id (fst p) then abandon (now w) (fst p) else d) (cartStore w)
        else cartStore w)
   \<and> (k \<noteq> cart_id (fst p) \<longrightarrow> recoveryPlans (processAbandonedCart p w) k = recoveryPlans w k)"
proof -
  let ?crt1 = "abandon (now w) (fst p)"
  let ?w1 = "if status (fst p) = Active then saveCart ?crt1 w else w"
  have w1: "now ?w1 = now w" "recoveryPlans ?w1 = recoveryPlans w"
    "cartStore ?w1 = (if status (fst p) = Active
        then map (\<lambda>d. if cart_id d = cart_id (fst p) then ?crt1 else d) (cartStore w)
        else cartStore w)"
    by (simp_all add: saveCart_def cart_id_abandon)
  show ?thesis
  proof (cases "snd p")
    case None
    then show ?thesis using w1 by (simp add: processAbandonedCart_def Let_def)
  next
    case (Some c)
    obtain res w2 where sc: "segmentCustomer defaultRules c ?w1 = (res, w2)"
      by (cases "segmentCustomer defaultRules c ?w1")
    with frame_segmentCustomer [of c ?w1]
    have w2: "now w2 = now ?w1" "cartStore w2 = cartStore ?w1" "recoveryPlans w2 = recoveryPlans ?w1"
      by simp_all
    show ?thesis
    proof (cases res)
      case (Inl e)
      with Some sc w1 w2 show ?thesis by (simp add: processAbandonedCart_def Let_def)
    next
      case (Inr segs)
      obtain s w3 where ds: "determineRecoveryStrategy ?crt1 c segs w2 = (s, w3)"
        by (cases "determineRecoveryStrategy ?crt1 c segs w2")
      with frame_determineRecoveryStrategy [of ?crt1 c segs w2]
      have w3: "now w3 = now w2" "cartStore w3 = cartStore w2" "recoveryPlans w3 = recoveryPlans w2"
        by simp_all
      have r: "processAbandonedCart p w = logAbandonment ?crt1 (initializeRecoveryWorkflow ?crt1 c s w3)"
        using Some sc Inr ds by (simp add: processAbandonedCart_def Let_def)
      show ?thesis
        unfolding r
        using frame_logAbandonment [of ?crt1 "initializeRecoveryWorkflow ?crt1 c s w3"]
          frame_initializeRecoveryWorkflow [of ?crt1 c s w3 k] w1 w2 w3
        by (simp add: cart_id_abandon)
    qed
  qed
qed


lemma now_sweep_loop:
  "now (foldl (\<lambda>v p. processAbandonedCart p v) v ps) = now v"
  by (induction ps arbitrary: v) (simp_all add: frame_processAbandonedCart)

lemma plans_sweep_loop:
  "\<forall>p \<in> set ps. cart_id (fst p) \<noteq> k \<Longrightarrow>
     recoveryPlans (foldl (\<lambda>v p. processAbandonedCart p v) v ps) k = recoveryPlans v k"
proof (induction ps arbitrary: v)
  case Nil
  then show ?case by simp
next
  case (Cons p ps)
  from Cons.prems have k: "k \<noteq> cart_id (fst p)" and rest: "\<forall>p \<in> set ps. cart_id (fst p) \<noteq> k"
    by auto
  from frame_processAbandonedCart [of p v k] k
  have "recoveryPlans (processAbandonedCart p v) k = recoveryPlans v k"
    by simp
  with Cons.IH [OF rest, of "processAbandonedCart p v"] show ?case by simp
qed

lemma status_abandon_active: "status crt = Active \<Longrightarrow> status (abandon t crt) = Abandoned"
  by (simp add: abandon_def preSave_def)

lemma carts_sweep_loop:
  assumes "\<forall>p \<in> set ps. status (fst p) = Active"
  shows "\<forall>d \<in> set (cartStore (foldl (\<lambda>v p. processAbandonedCart p v) v ps)).
           (cart_id d \<in> cart_id ` fst ` set ps \<longrightarrow> status d = Abandoned)
           \<and> (cart_id d \<notin> cart_id ` fst ` set ps \<longrightarrow> d \<in> set (cartStore v))"
  using assms
proof (induction ps arbitrary: v)
  case Nil
  then show ?case by simp
next
  case (Cons p ps)
  let ?v1 = "processAbandonedCart p v"
  from Cons.prems have act: "status (fst p) = Active" and rest: "\<forall>p \<in> set ps. status (fst p) = Active"
    by auto
  have store: "cartStore ?v1 =
      map (\<lambda>d. if cart_id d = cart_id (fst p) then abandon (now v) (fst p) else d) (cartStore v)"
    using frame_processAbandonedCart [of p v] act by simp
  have v1: "\<forall>d \<in> set (cartStore ?v1).
      (cart_id d = cart_id (fst p) \<longrightarrow> status d = Abandoned)
      \<and> (cart_id d \<noteq> cart_id (fst p) \<longrightarrow> d \<in> set (cartStore v))"
    unfolding store using act by (auto simp add: status_abandon_active cart_id_abandon)
  note ih = Cons.IH [OF rest, of ?v1]
  show ?case
  proof
    fix d assume d: "d \<in> set (cartStore (foldl (\<lambda>v p. processAbandonedCart p v) v (p # ps)))"
    then have d': "d \<in> set (cartStore (foldl (\<lambda>v p. processAbandonedCart p v) ?v1 ps))"
      by simp
    from ih d' have a: "cart_id d \<in> cart_id ` fst ` set ps \<longrightarrow> status d = Abandoned"
      and b: "cart_id d \<notin> cart_id ` fst ` set ps \<longrightarrow> d \<in> set (cartStore ?v1)"
      by blast+
    show "(cart_id d \<in> cart_id ` fst ` set (p # ps) \<longrightarrow> status d = Abandoned)
           \<and> (cart_id d \<notin> cart_id ` fst ` set (p # ps) \<longrightarrow> d \<in> set (cartStore v))"
      using a b v1 by auto
  qed
qed

lemma found_active: "\<forall>p \<in> set (potentiallyAbandonedCarts w). status (fst p) = Active"
  by (auto simp add: potentiallyAbandonedCarts_def Let_def)

lemma found_ids:
  "cart_id ` fst ` set (potentiallyAbandonedCarts w) =
     cart_id ` {d \<in> set (cartStore w). status d = Active
                   \<and> lastActivity d < now w - ABANDONMENT_THRESHOLD \<and> items d \<noteq> []}"
  by (auto simp add: potentiallyAbandonedCarts_def Let_def image_iff)

lemma swept_carts:
  "\<forall>d \<in> set (cartStore (detectAbandonedCarts w)).
     (cart_id d \<in> cart_id ` fst ` set (potentiallyAbandonedCarts w) \<longrightarrow> status d = Abandoned)
     \<and> (cart_id d \<notin> cart_id ` fst ` set (potentiallyAbandonedCarts w) \<longrightarrow> d \<in> set (cartStore w))"
  unfolding detectAbandonedCarts_def
  by (rule carts_sweep_loop [OF found_active])

lemma second_sweep_disjoint:
  assumes "p \<in> set (potentiallyAbandonedCarts w)"
    and "p2 \<in> set (potentiallyAbandonedCarts ((detectAbandonedCarts w)\<lparr>now := t2\<rparr>))"
  shows "cart_id (fst p2) \<noteq> cart_id (fst p)"
proof
  assume eq: "cart_id (fst p2) = cart_id (fst p)"
  from assms(2) have d: "fst p2 \<in> set (cartStore (detectAbandonedCarts w))" and a: "status (fst p2) = Active"
    by (auto simp add: potentiallyAbandonedCarts_def Let_def)
  from assms(1) eq have "cart_id (fst p2) \<in> cart_id ` fst ` set (potentiallyAbandonedCarts w)"
    by (metis imageI image_image)
  with swept_carts [of w] d have "status (fst p2) = Abandoned"
    by blast
  with a show False by simp
qed

lemma second_sweep_empty:
  "potentiallyAbandonedCarts (detectAbandonedCarts w) = []"
proof -
  let ?w1 = "detectAbandonedCarts w"
  have n: "now ?w1 = now w"
    by (simp add: detectAbandonedCarts_def now_sweep_loop)
  have "\<not> (status d = Active \<and> lastActivity d < now ?w1 - ABANDONMENT_THRESHOLD \<and> items d \<noteq> [])"
    if d: "d \<in> set (cartStore ?w1)" for d
  proof
    assume sel: "status d = Active \<and> lastActivity d < now ?w1 - ABANDONMENT_THRESHOLD \<and> items d \<noteq> []"
    show False
    proof (cases "cart_id d \<in> cart_id ` fst ` set (potentiallyAbandonedCarts w)")
      case True
      with swept_carts [of w] d have "status d = Abandoned" by blast
      with sel show False by simp
    next
      case False
      with swept_carts [of w] d have "d \<in> set (cartStore w)" by blast
      with sel n have "cart_id d \<in> cart_id ` fst ` set (potentiallyAbandonedCarts w)"
        unfolding found_ids by auto
      with False show False by simp
    qed
  qed
  then show ?thesis
    by (simp add: potentiallyAbandonedCarts_def Let_def filter_empty_conv)
qed

text \<open>
  C9. After a sweep, every cart it processed is stored as abandoned; a second sweep, at
  whatever clock reading, selects none of them and leaves their recovery plans as the
  first sweep left them. At the same clock reading the second sweep selects no cart at
  all and changes nothing.
\<close>

theorem sweep_twice:
  "(\<forall>p \<in> set (potentiallyAbandonedCarts w).
       (\<forall>d \<in> set (cartStore (detectAbandonedCarts w)).
           cart_id d = cart_id (fst p) \<longrightarrow> status d = Abandoned)
       \<and> cart_id (fst p) \<notin>
           cart_id ` fst ` set (potentiallyAbandonedCarts ((detectAbandonedCarts w)\<lparr>now := t2\<rparr>))
       \<and> recoveryPlans (detectAbandonedCarts ((detectAbandonedCarts w)\<lparr>now := t2\<rparr>)) (cart_id (fst p))
           = recoveryPlans (detectAbandonedCarts w) (cart_id (fst p)))
   \<and> potentiallyAbandonedCarts (detectAbandonedCarts w) = []
   \<and> detectAbandonedCarts (detectAbandonedCarts w) = detectAbandonedCarts w"
proof -
  let ?w1 = "detectAbandonedCarts w"
  have a: "(\<forall>d \<in> set (cartStore ?w1). cart_id d = cart_id (fst p) \<longrightarrow> status d = Abandoned)
       \<and> cart_id (fst p) \<notin> cart_id ` fst ` set (potentiallyAbandonedCarts (?w1\<lparr>now := t2\<rparr>))
       \<and> recoveryPlans (detectAbandonedCarts (?w1\<lparr>now := t2\<rparr>)) (cart_id (fst p))
           = recoveryPlans ?w1 (cart_id (fst p))"
    if p: "p \<in> set (potentiallyAbandonedCarts w)" for p
  proof -
    from p have i: "cart_id (fst p) \<in> cart_id ` fst ` set (potentiallyAbandonedCarts w)"
      by (metis imageI image_image)
    have 1: "\<forall>d \<in> set (cartStore ?w1). cart_id d = cart_id (fst p) \<longrightarrow> status d = Abandoned"
      using swept_carts [of w] i by auto
    have 2: "\<forall>p2 \<in> set (potentiallyAbandonedCarts (?w1\<lparr>now := t2\<rparr>)). cart_id (fst p2) \<noteq> cart_id (fst p)"
      using second_sweep_disjoint [OF p] by blast
    then have nd: "cart_id (fst p) \<notin> cart_id ` fst ` set (potentiallyAbandonedCarts (?w1\<lparr>now := t2\<rparr>))"
      by auto
    have 3: "recoveryPlans (detectAbandonedCarts (?w1\<lparr>now := t2\<rparr>)) (cart_id (fst p))
           = recoveryPlans (?w1\<lparr>now := t2\<rparr>) (cart_id (fst p))"
      unfolding detectAbandonedCarts_def [of "?w1\<lparr>now := t2\<rparr>"]
      by (rule plans_sweep_loop [OF 2])
    show ?thesis using 1 nd 3 by simp
  qed
  have b: "potentiallyAbandonedCarts ?w1 = []"
    by (rule second_sweep_empty)
  have c: "detectAbandonedCarts ?w1 = ?w1"
    unfolding detectAbandonedCarts_def [of ?w1] b by simp
  show ?thesis using a b c by blast
qed


lemmas sweep_eval =
  detectAbandonedCarts_def potentiallyAbandonedCarts_def processAbandonedCart_def
  ABANDONMENT_THRESHOLD_def activeCartExample_def abandon_def preSave_def saveCart_def
  determineRecoveryStrategy_def baseChannels_def initializeRecoveryWorkflow_def
  createRecoveryPlan_def RECOVERY_INTERVALS_def selectTemplates_def noTemplates_def
  logAbandonment_def hincrby_def dateKey_def zeroCounters_def

lemma example_found:
  "potentiallyAbandonedCarts exampleWorld = [(activeCartExample, Some exampleCustomer)]"
  by (simp add: potentiallyAbandonedCarts_def exampleWorld_def ABANDONMENT_THRESHOLD_def
      activeCartExample_def)

lemma example_sweep_plan:
  "map_option (\<lambda>pl. map (\<lambda>a. (scheduledFor a, attempt_channels a)) (attempts (fst pl)))
     (recoveryPlans (detectAbandonedCarts exampleWorld) ''c1'')
   = Some [(103600000, [Whatsapp]), (186400000, [Email, Whatsapp]), (359200000, [Email])]"
  by (simp add: sweep_eval example_eval assignABTestVariant_def abTests_eq mathRandom_def
      selectVariant_def noDraws_def)

lemma example_sweep_store:
  "cartStore (detectAbandonedCarts exampleWorld) = [abandon 100000000 activeCartExample]"
  by (simp add: sweep_eval example_eval assignABTestVariant_def abTests_eq mathRandom_def
      selectVariant_def noDraws_def)

theorem sweep_twice_witness:
  "(activeCartExample, Some exampleCustomer) \<in> set (potentiallyAbandonedCarts exampleWorld)
   \<and> abandon 100000000 activeCartExample \<in> set (cartStore (detectAbandonedCarts exampleWorld))
   \<and> cart_id (abandon 100000000 activeCartExample) = cart_id activeCartExample
   \<and> status (abandon 100000000 activeCartExample) = Abandoned
   \<and> recoveryPlans (detectAbandonedCarts ((detectAbandonedCarts exampleWorld)\<lparr>now := 100000001\<rparr>)) ''c1''
       = recoveryPlans (detectAbandonedCarts exampleWorld) ''c1''
   \<and> recoveryPlans (detectAbandonedCarts exampleWorld) ''c1'' \<noteq> None
   \<and> detectAbandonedCarts (detectAbandonedCarts exampleWorld) = detectAbandonedCarts exampleWorld"
proof -
  have f: "(activeCartExample, Some exampleCustomer) \<in> set (potentiallyAbandonedCarts exampleWorld)"
    by (simp add: example_found)
  have m: "abandon 100000000 activeCartExample \<in> set (cartStore (detectAbandonedCarts exampleWorld))"
    by (simp add: example_sweep_store)
  have i: "cart_id (abandon 100000000 activeCartExample) = cart_id activeCartExample"
    by (rule cart_id_abandon)
  have c1: "cart_id activeCartExample = ''c1''"
    by (simp add: activeCartExample_def)
  have pl: "recoveryPlans (detectAbandonedCarts exampleWorld) ''c1'' \<noteq> None"
    using example_sweep_plan by auto
  note t = sweep_twice [of exampleWorld 100000001]
  from t f have
    s: "\<forall>d \<in> set (cartStore (detectAbandonedCarts exampleWorld)).
          cart_id d = cart_id (fst (activeCartExample, Some exampleCustomer)) \<longrightarrow> status d = Abandoned"
    and r: "recoveryPlans (detectAbandonedCarts ((detectAbandonedCarts exampleWorld)\<lparr>now := 100000001\<rparr>))
              (cart_id (fst (activeCartExample, Some exampleCustomer)))
            = recoveryPlans (detectAbandonedCarts exampleWorld)
                (cart_id (fst (activeCartExample, Some exampleCustomer)))"
    by blast+
  from s m i have st: "status (abandon 100000000 activeCartExample) = Abandoned"
    by simp
  from t have idem: "detectAbandonedCarts (detectAbandonedCarts exampleWorld) = detectAbandonedCarts exampleWorld"
    by blast
  show ?thesis using f m i st r c1 pl idem by simp
qed

end
